theory Spec2Isabelle
  imports Complex_Main
begin

section \<open>Wire record and field extraction\<close>

text \<open>
  \<^verbatim>\<open>InteractiveMotorData\<close> (datastream_sample.h): thirteen doubles per motor, in the
  declaration order of the struct. A double is modelled as the real number it denotes
  (NaN and the infinities are left out); the one sum of doubles in the modelled code,
  in \<^verbatim>\<open>updateData\<close>, is rounded as binary64 rounds it. The text rendering of a double is
  outside the model. The trailing underscore of the C++ member names is dropped.
\<close>

record InteractiveMotorData =
  mode :: real
  index :: real
  tau :: real
  pos :: real
  vel :: real
  pos_des :: real
  vel_des :: real
  kp :: real
  kd :: real
  ff :: real
  error :: real
  temperature :: real
  mos_temperature :: real

text \<open>\<^verbatim>\<open>const int MOTOR_COUNT = 13\<close> and \<^verbatim>\<open>sizeof(InteractiveMotorData) == 8 * 13\<close>
  (the header's static assertion); \<^verbatim>\<open>sizeof(recv_data)\<close> is their product.\<close>

definition MOTOR_COUNT :: nat where
  "MOTOR_COUNT = 13"

definition sizeof_InteractiveMotorData :: nat where
  "sizeof_InteractiveMotorData = 8 * 13"

definition sizeof_recv_data :: int where
  "sizeof_recv_data = int (MOTOR_COUNT * sizeof_InteractiveMotorData)"

text \<open>\<^verbatim>\<open>extract_fields\<close> of the later revision: six values, in this order.\<close>

definition extract_fields :: "InteractiveMotorData \<Rightarrow> real list" where
  "extract_fields m = [pos m, vel m, tau m, error m, temperature m, mos_temperature m]"

text \<open>The constructor parameters \<^verbatim>\<open>_group_count\<close> and \<^verbatim>\<open>_var_count\<close>. They are C++ ints;
  a negative count makes the constructor's vector allocation throw, so only the
  natural numbers are modelled.\<close>

record config =
  group_count :: nat
  var_count :: nat

text \<open>The header's default arguments: \<^verbatim>\<open>DataStreamSample(int group_count = 13, int var_count = 12)\<close>.\<close>

definition default_config :: config where
  "default_config = \<lparr>group_count = 13, var_count = 12\<rparr>"

text \<open>
  The decoding loop of \<^verbatim>\<open>receiveUDPData\<close>:
  \<^verbatim>\<open>data[i] = vector(values.begin(), values.begin() + min(_var_count, values.size()))\<close>
  for \<^verbatim>\<open>i < _group_count\<close>. Reading \<^verbatim>\<open>recv_data[i]\<close> beyond the array is undefined
  behaviour in C++: the model returns \<open>None\<close> there.
\<close>

definition decode_row :: "config \<Rightarrow> InteractiveMotorData \<Rightarrow> real list" where
  "decode_row cfg m =
     (let values = extract_fields m
      in take (min (var_count cfg) (length values)) values)"

definition decode_frame :: "config \<Rightarrow> InteractiveMotorData list \<Rightarrow> real list list option" where
  "decode_frame cfg recv =
     (if group_count cfg \<le> length recv
      then Some (map (\<lambda>i. decode_row cfg (recv ! i)) [0..<group_count cfg])
      else None)"

section \<open>Error catalogue\<close>

text \<open>The texts of \<^verbatim>\<open>error_text_map\<close>, as the UTF-8 bytes of the source literals.\<close>

definition text_no_error :: string where
  "text_no_error = [CHR 0xE6, CHR 0x97, CHR 0xA0, CHR 0xE9, CHR 0x94, CHR 0x99, CHR 0xE8, CHR 0xAF, CHR 0xAF]"

definition text_overheat :: string where
  "text_overheat = [CHR 0xE7, CHR 0x94, CHR 0xB5, CHR 0xE6, CHR 0x9C, CHR 0xBA, CHR 0xE8, CHR 0xBF, CHR 0x87, CHR 0xE7, CHR 0x83, CHR 0xAD]"

definition text_overcurrent :: string where
  "text_overcurrent = [CHR 0xE7, CHR 0x94, CHR 0xB5, CHR 0xE6, CHR 0x9C, CHR 0xBA, CHR 0xE8, CHR 0xBF, CHR 0x87, CHR 0xE6, CHR 0xB5, CHR 0x81]"

definition text_undervoltage :: string where
  "text_undervoltage = [CHR 0xE7, CHR 0x94, CHR 0xB5, CHR 0xE6, CHR 0x9C, CHR 0xBA, CHR 0xE7, CHR 0x94, CHR 0xB5, CHR 0xE5, CHR 0x8E, CHR 0x8B, CHR 0xE8, CHR 0xBF, CHR 0x87, CHR 0xE4, CHR 0xBD, CHR 0x8E]"

definition text_encoder :: string where
  "text_encoder = [CHR 0xE7, CHR 0x94, CHR 0xB5, CHR 0xE6, CHR 0x9C, CHR 0xBA, CHR 0xE7, CHR 0xBC, CHR 0x96, CHR 0xE7, CHR 0xA0, CHR 0x81, CHR 0xE5, CHR 0x99, CHR 0xA8, CHR 0xE9, CHR 0x94, CHR 0x99, CHR 0xE8, CHR 0xAF, CHR 0xAF]"

definition text_brake_voltage :: string where
  "text_brake_voltage = [CHR 0xE7, CHR 0x94, CHR 0xB5, CHR 0xE6, CHR 0x9C, CHR 0xBA, CHR 0xE5, CHR 0x88, CHR 0xB9, CHR 0xE8, CHR 0xBD, CHR 0xA6, CHR 0xE7, CHR 0x94, CHR 0xB5, CHR 0xE5, CHR 0x8E, CHR 0x8B, CHR 0xE8, CHR 0xBF, CHR 0x87, CHR 0xE9, CHR 0xAB, CHR 0x98]"

definition text_drv :: string where
  "text_drv = [CHR 0x44, CHR 0x52, CHR 0x56, CHR 0xE9, CHR 0xA9, CHR 0xB1, CHR 0xE5, CHR 0x8A, CHR 0xA8, CHR 0xE9, CHR 0x94, CHR 0x99, CHR 0xE8, CHR 0xAF, CHR 0xAF]"

text \<open>The literal returned by \<^verbatim>\<open>errorToText\<close> when the code is not a key of the map.\<close>

definition text_unknown :: string where
  "text_unknown = [CHR 0xE6, CHR 0x9C, CHR 0xAA, CHR 0xE7, CHR 0x9F, CHR 0xA5, CHR 0xE9, CHR 0x94, CHR 0x99, CHR 0xE8, CHR 0xAF, CHR 0xAF]"

definition error_text_map :: "(int \<times> string) list" where
  "error_text_map =
     [(0, text_no_error), (1, text_overheat), (2, text_overcurrent), (3, text_undervoltage),
      (4, text_encoder), (6, text_brake_voltage), (7, text_drv)]"

text \<open>\<^verbatim>\<open>it = error_text_map.find(error); return it != end ? it->second : unknown\<close>.\<close>

definition errorToText :: "int \<Rightarrow> string" where
  "errorToText e = (case map_of error_text_map e of Some t \<Rightarrow> t | None \<Rightarrow> text_unknown)"

section \<open>Plugin state\<close>

text \<open>The header's \<^verbatim>\<open>field_names\<close>, spelled as in the source.\<close>

definition field_names :: "string list" where
  "field_names =
     [''Mode'', ''Pos'', ''Vel'', ''Torque'', ''Pos_des'', ''Vel_des'', ''Kp'', ''Kd'', ''FF'',
      ''Error'', ''Temperatrue'', ''Mos Temperature'']"

text \<open>Diagnostic lines (\<^verbatim>\<open>qDebug\<close>, \<^verbatim>\<open>std::cerr\<close>, \<^verbatim>\<open>std::cout\<close>), one constructor per
  message of the source, with the values the message prints.\<close>

datatype diag =
    SizeMismatch int
  | InvalidDataSize
  | NotFoundInDataMap string
  | CannotOpenFile string
  | LogExported string

text \<open>A queued \<^verbatim>\<open>QMetaObject::invokeMethod\<close> on the label of one motor: the label's
  index and the argument of \<^verbatim>\<open>setStyleSheet\<close> or \<^verbatim>\<open>setText\<close>.\<close>

datatype ui_call = SetStyleSheet nat string | SetText nat string

type_synonym point = "real \<times> real"

type_synonym frame = "InteractiveMotorData list"

text \<open>
  The members of \<^verbatim>\<open>DataStreamSample\<close> that the modelled functions read or write,
  together with the local \<^verbatim>\<open>timestamp_str_first\<close> of \<^verbatim>\<open>receiveUDPData\<close> (it lives
  across the iterations of the receive loop) and the log directory:
  \<open>files\<close> lists every block that \<^verbatim>\<open>printMotorDataToFile\<close> appended, in order, as
  (path, frame label, motors written). \<open>motor_error_labels\<close> is the size of the
  label vector. \<^verbatim>\<open>log_mode_\<close> is an int: 1 selects full-time logging, 0 logging on
  error.
\<close>

record stream_state =
  data_array :: "real list list"
  numeric :: "string \<rightharpoonup> point list"
  last_errors :: "int list"
  motor_error_labels :: nat
  ui_queue :: "ui_call list"
  dataReceived :: nat
  diagnostics :: "diag list"
  log_mode :: int
  error_data_buffer :: "frame list"
  error_triggered :: bool
  timestamp_str_first :: string
  files :: "(string \<times> string \<times> frame) list"

text \<open>\<^verbatim>\<open>std::to_string\<close> on a non-negative int and \<^verbatim>\<open>QString::arg(int)\<close>: decimal digits.\<close>

definition digit_char :: "nat \<Rightarrow> char" where
  "digit_char d = ''0123456789'' ! (d mod 10)"

fun to_string :: "nat \<Rightarrow> string" where
  "to_string n = (if n < 10 then [digit_char n] else to_string (n div 10) @ [digit_char n])"

definition arg_int :: "int \<Rightarrow> string" where
  "arg_int e = (if e < 0 then CHR ''-'' # to_string (nat (- e)) else to_string (nat e))"

text \<open>\<^verbatim>\<open>"Motor" + std::to_string(g + 1) + "/" + field_names[v]\<close>.\<close>

definition series_name :: "nat \<Rightarrow> nat \<Rightarrow> string" where
  "series_name g v = ''Motor'' @ to_string (g + 1) @ ''/'' @ field_names ! v"

text \<open>A loop whose body may hit undefined behaviour: the first \<open>None\<close> ends it.\<close>

fun for_each :: "('i \<Rightarrow> 's \<Rightarrow> 's option) \<Rightarrow> 'i list \<Rightarrow> 's \<Rightarrow> 's option" where
  "for_each body [] s = Some s"
| "for_each body (i # is) s =
     (case body i s of None \<Rightarrow> None | Some s' \<Rightarrow> for_each body is s')"

text \<open>Modelled from the spec: the initial value of \<^verbatim>\<open>log_mode_\<close>. Its declaration belongs
  to the later revision's header, which is not among the sources; the spec gives
  ErrorTriggered (0) as the default log mode.\<close>

definition initial_log_mode :: int where
  "initial_log_mode = 0"

text \<open>The constructor: a grid of zeros, one registered (empty) series per motor and
  named field, the error cache filled with -1, no label yet, and the header's
  \<^verbatim>\<open>error_triggered_ = false\<close>. (\<^verbatim>\<open>addNumeric\<close> of the plotting host is taken to create a
  series when the name is new.)\<close>

definition register_series :: "nat \<times> nat \<Rightarrow> (string \<rightharpoonup> point list) \<Rightarrow> (string \<rightharpoonup> point list)" where
  "register_series gv m =
     (let g = fst gv; v = snd gv
      in if v \<ge> length field_names then m
         else (case m (series_name g v) of
                 None \<Rightarrow> m(series_name g v \<mapsto> [])
               | Some _ \<Rightarrow> m))"

definition DataStreamSample :: "config \<Rightarrow> stream_state" where
  "DataStreamSample cfg =
     \<lparr>data_array = replicate (group_count cfg) (replicate (var_count cfg) 0),
      numeric = fold register_series
                  (List.product [0..<group_count cfg] [0..<var_count cfg]) Map.empty,
      last_errors = replicate (group_count cfg) (- 1),
      motor_error_labels = 0,
      ui_queue = [],
      dataReceived = 0,
      diagnostics = [],
      log_mode = initial_log_mode,
      error_data_buffer = [],
      error_triggered = False,
      timestamp_str_first = [],
      files = []\<rparr>"

text \<open>\<^verbatim>\<open>startUIWindow\<close>, as far as the modelled state goes. \<^verbatim>\<open>ui_window_initialized_\<close> is a
  static member, shared by all instances of a process: it is passed in and returned.
  Only the first call of a process builds the window, clearing the label vector and
  giving it one label per motor; every later call returns at once.\<close>

definition startUIWindow :: "config \<Rightarrow> bool \<Rightarrow> stream_state \<Rightarrow> bool \<times> stream_state" where
  "startUIWindow cfg ui_window_initialized s =
     (if ui_window_initialized then (ui_window_initialized, s)
      else (True, s\<lparr>motor_error_labels := group_count cfg\<rparr>))"

section \<open>updateData and setData\<close>

text \<open>\<^verbatim>\<open>_data_array[g][v]\<close>; \<open>None\<close> when the read is out of range.\<close>

definition lookup_cell :: "real list list \<Rightarrow> nat \<Rightarrow> nat \<Rightarrow> real option" where
  "lookup_cell d g v =
     (if g < length d \<and> v < length (d ! g) then Some (d ! g ! v) else None)"

text \<open>
  The sum of two doubles is the exact sum rounded to the nearest binary64 value, ties
  to the even significand. Around a real \<open>r\<close> the binary64 values are spaced by
  \<open>2 ^ (e - 52)\<close>, where \<open>2 ^ e \<le> \<bar>r\<bar> < 2 ^ (e + 1)\<close>, and by \<open>2 ^ (- 1074)\<close> in the
  subnormal range. (Adding 0.5 to a double never overflows.)
\<close>

definition round_half_even :: "real \<Rightarrow> int" where
  "round_half_even r =
     (let f = \<lfloor>r\<rfloor>; d = r - of_int f
      in if d < 1 / 2 then f
         else if 1 / 2 < d then f + 1
         else if even f then f else f + 1)"

definition binary64_quantum :: "real \<Rightarrow> real" where
  "binary64_quantum r = power_int 2 (max (\<lfloor>log 2 \<bar>r\<bar>\<rfloor> - 52) (- 1074))"

definition round_binary64 :: "real \<Rightarrow> real" where
  "round_binary64 r =
     (if r = 0 then 0
      else of_int (round_half_even (r / binary64_quantum r)) * binary64_quantum r)"

definition double_add :: "real \<Rightarrow> real \<Rightarrow> real" where
  "double_add a b = round_binary64 (a + b)"

text \<open>\<^verbatim>\<open>static_cast<int>\<close> of a double truncates towards zero; it is undefined when
  the truncated value is not an int.\<close>

definition static_cast_int :: "real \<Rightarrow> int option" where
  "static_cast_int x =
     (let t = (if 0 \<le> x then \<lfloor>x\<rfloor> else \<lceil>x\<rceil>)
      in if - (2 ^ 31) \<le> t \<and> t < 2 ^ 31 then Some t else None)"

text \<open>The body of the plotting loop of \<^verbatim>\<open>updateData\<close> for one (g, v).\<close>

definition push_point :: "real \<Rightarrow> nat \<times> nat \<Rightarrow> stream_state \<Rightarrow> stream_state option" where
  "push_point stamp gv s =
     (let g = fst gv; v = snd gv
      in if v \<ge> length field_names then Some s
         else (case numeric s (series_name g v) of
                 None \<Rightarrow>
                   Some (s\<lparr>diagnostics := diagnostics s @ [NotFoundInDataMap (series_name g v)]\<rparr>)
               | Some pts \<Rightarrow>
                   (case lookup_cell (data_array s) g v of
                      None \<Rightarrow> None
                    | Some x \<Rightarrow>
                        Some (s\<lparr>numeric := (numeric s)(series_name g v \<mapsto> pts @ [(stamp, x)])\<rparr>))))"

text \<open>The text and the colour that a label receives for an error value.\<close>

definition label_text :: "int \<Rightarrow> string" where
  "label_text error_val = errorToText error_val @ '' ('' @ arg_int error_val @ '')''"

definition label_style :: "int \<Rightarrow> string" where
  "label_style error_val =
     ''color: '' @ (if error_val = 0 then ''black'' else ''red'') @ '';''"

text \<open>The body of the label loop of the later revision's \<^verbatim>\<open>updateData\<close> for motor i:
  \<^verbatim>\<open>error_val = static_cast<int>(_data_array[i][3] + 0.5)\<close>, a sum of doubles, compared
  with \<^verbatim>\<open>last_errors_[i]\<close>.\<close>

definition update_label :: "nat \<Rightarrow> stream_state \<Rightarrow> stream_state option" where
  "update_label i s =
     (case lookup_cell (data_array s) i 3 of
        None \<Rightarrow> None
      | Some x \<Rightarrow>
          (case static_cast_int (double_add x 0.5) of
             None \<Rightarrow> None
           | Some error_val \<Rightarrow>
               if i < length (last_errors s) then
                 (if last_errors s ! i \<noteq> error_val
                  then Some (s\<lparr>last_errors := (last_errors s)[i := error_val],
                               ui_queue := ui_queue s @
                                 [SetStyleSheet i (label_style error_val),
                                  SetText i (label_text error_val)]\<rparr>)
                  else Some s)
               else None))"

definition updateData :: "config \<Rightarrow> real \<Rightarrow> stream_state \<Rightarrow> stream_state option" where
  "updateData cfg stamp s =
     (case for_each (push_point stamp)
             (List.product [0..<group_count cfg] [0..<var_count cfg]) s of
        None \<Rightarrow> None
      | Some s1 \<Rightarrow>
          (case (if motor_error_labels s1 \<noteq> 0
                 then for_each update_label
                        [0..<min (group_count cfg) (motor_error_labels s1)] s1
                 else Some s1) of
             None \<Rightarrow> None
           | Some s2 \<Rightarrow> Some (s2\<lparr>dataReceived := dataReceived s2 + 1\<rparr>)))"

text \<open>\<^verbatim>\<open>setData\<close>: the test \<^verbatim>\<open>data.size() != _group_count || data[0].size() != _var_count\<close>
  short-circuits; \<^verbatim>\<open>data[0]\<close> of an empty vector is undefined.\<close>

definition setData :: "config \<Rightarrow> real \<Rightarrow> real list list \<Rightarrow> stream_state \<Rightarrow> stream_state option" where
  "setData cfg stamp data s =
     (if length data \<noteq> group_count cfg
      then Some (s\<lparr>diagnostics := diagnostics s @ [InvalidDataSize]\<rparr>)
      else (case data of
              [] \<Rightarrow> None
            | row0 # _ \<Rightarrow>
                if length row0 \<noteq> var_count cfg
                then Some (s\<lparr>diagnostics := diagnostics s @ [InvalidDataSize]\<rparr>)
                else updateData cfg stamp (s\<lparr>data_array := data\<rparr>)))"

section \<open>Log writer and receive loop\<close>

text \<open>\<^verbatim>\<open>printMotorDataToFile\<close>: when the stream does not open, one line on
  \<^verbatim>\<open>std::cerr\<close> and return; otherwise one block (header with the label, then the
  first \<open>sz\<close> motors, the parameter \<^verbatim>\<open>size\<close>) is appended to the file. \<open>can_open\<close>
  says which paths open. The rendering of the numbers is not modelled.\<close>

definition printMotorDataToFile ::
  "(string \<Rightarrow> bool) \<Rightarrow> frame \<Rightarrow> nat \<Rightarrow> string \<Rightarrow> string \<Rightarrow> stream_state \<Rightarrow> stream_state" where
  "printMotorDataToFile can_open motor_data sz filename timestamp_str s =
     (if \<not> can_open filename
      then s\<lparr>diagnostics := diagnostics s @ [CannotOpenFile filename]\<rparr>
      else s\<lparr>files := files s @ [(filename, timestamp_str, take sz motor_data)]\<rparr>)"

definition log_dir :: string where
  "log_dir = ''/tmp/plotjuggler_motor_monitor_log/''"

definition full_log_path :: "string \<Rightarrow> string" where
  "full_log_path ts = log_dir @ ''full_log_'' @ ts @ ''.txt''"

definition motor_error_log_path :: "string \<Rightarrow> string" where
  "motor_error_log_path ts = log_dir @ ''motor_error_log_'' @ ts @ ''.txt''"

text \<open>\<^verbatim>\<open>recvfrom(sock, recv_data, sizeof(recv_data), 0, nullptr, nullptr)\<close> on a datagram of
  \<open>len\<close> bytes. The socket is a datagram socket and the flags are 0, so a datagram that
  is longer than the buffer is cut to the buffer's size, and the call returns the number
  of bytes it stored. (A failed call returns -1.)\<close>

definition recvfrom :: "nat \<Rightarrow> int" where
  "recvfrom len = min (int len) sizeof_recv_data"

text \<open>One return of \<^verbatim>\<open>recvfrom\<close>: its result, the content of \<^verbatim>\<open>recv_data\<close> afterwards
  (an array of \<^verbatim>\<open>MOTOR_COUNT\<close> records), and the two clock readings an iteration may
  take: the time stamp of \<^verbatim>\<open>updateData\<close> and \<^verbatim>\<open>getCurrentTimestampString()\<close>.\<close>

record udp_event =
  bytesRead :: int
  recv_data :: frame
  clock :: real
  timestamp_str :: string

text \<open>\<^verbatim>\<open>recv_data[i].error_ != 0\<close> for some \<^verbatim>\<open>i < MOTOR_COUNT\<close>.\<close>

definition frame_has_error :: "frame \<Rightarrow> bool" where
  "frame_has_error recv = list_ex (\<lambda>m. error m \<noteq> 0) (take MOTOR_COUNT recv)"

text \<open>The logging part of one iteration of the later revision (from the comment
  that opens the log decision to the end of the loop body). \<^verbatim>\<open>log_mode_\<close> is written by
  the window's button only; here it is read from the state, so one iteration sees one
  value. \<^verbatim>\<open>current_frame_has_error\<close> stays false in full-time mode, where the error scan
  is skipped.\<close>

definition log_frame :: "(string \<Rightarrow> bool) \<Rightarrow> udp_event \<Rightarrow> stream_state \<Rightarrow> stream_state" where
  "log_frame can_open ev s =
     (let current_frame_has_error = (log_mode s \<noteq> 1 \<and> frame_has_error (recv_data ev));
          should_log_frame = (log_mode s = 1 \<or> current_frame_has_error);
          s1 = (if should_log_frame
                then s\<lparr>error_data_buffer :=
                         error_data_buffer s @ [take MOTOR_COUNT (recv_data ev)]\<rparr>
                else s)
      in if log_mode s = 1 \<or> current_frame_has_error then
           (let s2 = (if timestamp_str_first s1 = []
                      then s1\<lparr>timestamp_str_first := timestamp_str ev\<rparr>
                      else s1);
                log_filename = (if log_mode s = 1
                                then full_log_path (timestamp_str_first s2)
                                else motor_error_log_path (timestamp_str_first s2));
                s3 = fold (\<lambda>fr. printMotorDataToFile can_open fr MOTOR_COUNT log_filename
                                   (timestamp_str ev))
                       (error_data_buffer s2) s2;
                s4 = s3\<lparr>diagnostics := diagnostics s3 @ [LogExported log_filename],
                        error_data_buffer := []\<rparr>
            in if log_mode s = 0 then s4\<lparr>error_triggered := False\<rparr> else s4)
         else s1)"

text \<open>The logging part of one iteration of the earlier revision, which has no log
  mode: the frame is buffered when \<^verbatim>\<open>error_triggered_ || current_frame_has_error\<close>, and
  a frame with an error exports the buffer and resets the flag.\<close>

definition log_frame_v1 :: "(string \<Rightarrow> bool) \<Rightarrow> udp_event \<Rightarrow> stream_state \<Rightarrow> stream_state" where
  "log_frame_v1 can_open ev s =
     (let current_frame_has_error = frame_has_error (recv_data ev);
          s1 = (if error_triggered s \<or> current_frame_has_error
                then s\<lparr>error_triggered := True,
                       error_data_buffer :=
                         error_data_buffer s @ [take MOTOR_COUNT (recv_data ev)]\<rparr>
                else s)
      in if current_frame_has_error then
           (let s2 = (if timestamp_str_first s1 = []
                      then s1\<lparr>timestamp_str_first := timestamp_str ev\<rparr>
                      else s1);
                filename = ''motor_error_log_'' @ timestamp_str_first s2 @ ''.txt'';
                s3 = fold (\<lambda>fr. printMotorDataToFile can_open fr MOTOR_COUNT filename
                                   (timestamp_str ev))
                       (error_data_buffer s2) s2
            in s3\<lparr>diagnostics := diagnostics s3 @ [LogExported ''motor_error_log.txt''],
                  error_data_buffer := [],
                  error_triggered := False\<rparr>)
         else s1)"

text \<open>One iteration of the \<^verbatim>\<open>while (_running)\<close> loop of \<^verbatim>\<open>receiveUDPData\<close>.\<close>

definition receive_iteration ::
  "config \<Rightarrow> (string \<Rightarrow> bool) \<Rightarrow> udp_event \<Rightarrow> stream_state \<Rightarrow> stream_state option" where
  "receive_iteration cfg can_open ev s =
     (if bytesRead ev \<noteq> sizeof_recv_data
      then Some (s\<lparr>diagnostics := diagnostics s @ [SizeMismatch (bytesRead ev)]\<rparr>)
      else (case decode_frame cfg (recv_data ev) of
              None \<Rightarrow> None
            | Some data \<Rightarrow>
                (case setData cfg (clock ev) data s of
                   None \<Rightarrow> None
                 | Some s1 \<Rightarrow> Some (log_frame can_open ev s1))))"

text \<open>The receive loop over the datagrams that arrive while \<^verbatim>\<open>_running\<close> holds.\<close>

definition receiveUDPData ::
  "config \<Rightarrow> (string \<Rightarrow> bool) \<Rightarrow> udp_event list \<Rightarrow> stream_state \<Rightarrow> stream_state option" where
  "receiveUDPData cfg can_open evs s = for_each (receive_iteration cfg can_open) evs s"

section \<open>Notions used in the statements\<close>

text \<open>A datagram is accepted when \<^verbatim>\<open>recvfrom\<close> returned exactly \<^verbatim>\<open>sizeof(recv_data)\<close>.\<close>

definition accepted :: "udp_event \<Rightarrow> bool" where
  "accepted ev = (bytesRead ev = sizeof_recv_data)"

text \<open>The frames that an iteration in log mode \<open>m\<close> buffers and flushes.\<close>

definition logged :: "int \<Rightarrow> udp_event \<Rightarrow> bool" where
  "logged m ev = (accepted ev \<and> (m = 1 \<or> frame_has_error (recv_data ev)))"

text \<open>The path chosen by the flush: prefix by log mode, then the first time stamp.\<close>

definition log_path :: "int \<Rightarrow> string \<Rightarrow> string" where
  "log_path m ts = (if m = 1 then full_log_path ts else motor_error_log_path ts)"

definition first_timestamp :: "stream_state \<Rightarrow> udp_event \<Rightarrow> string" where
  "first_timestamp s ev =
     (if timestamp_str_first s = [] then timestamp_str ev else timestamp_str_first s)"

text \<open>The first time stamp of a whole run: the one already stored, or else the time
  stamp of the first frame of the run that is flushed.\<close>

definition run_first_timestamp :: "stream_state \<Rightarrow> udp_event list \<Rightarrow> string" where
  "run_first_timestamp s evs =
     (if timestamp_str_first s \<noteq> [] then timestamp_str_first s
      else (case filter (logged (log_mode s)) evs of
              [] \<Rightarrow> []
            | ev # _ \<Rightarrow> timestamp_str ev))"

text \<open>What the C++ types and the constructor guarantee, and what keeps an iteration
  free of undefined behaviour: the receive buffer holds \<^verbatim>\<open>MOTOR_COUNT\<close> records whose
  error codes fit an int; the instance has at least one and at most \<^verbatim>\<open>MOTOR_COUNT\<close>
  groups, an error cache of \<^verbatim>\<open>_group_count\<close> entries, and rows that reach index 3
  once labels exist.\<close>

definition frame_ok :: "udp_event \<Rightarrow> bool" where
  "frame_ok ev =
     (length (recv_data ev) = MOTOR_COUNT \<and>
      list_all (\<lambda>m. static_cast_int (double_add (error m) 0.5) \<noteq> None) (recv_data ev))"

definition instance_ok :: "config \<Rightarrow> stream_state \<Rightarrow> bool" where
  "instance_ok cfg s =
     (0 < group_count cfg \<and> group_count cfg \<le> MOTOR_COUNT \<and>
      length (last_errors s) = group_count cfg \<and>
      (motor_error_labels s = 0 \<or> 4 \<le> var_count cfg))"

text \<open>The label a queued call addresses, the pair of calls that one notification
  queues, and the calls in a queue that address label \<open>i\<close>.\<close>

fun ui_label :: "ui_call \<Rightarrow> nat" where
  "ui_label (SetStyleSheet i _) = i"
| "ui_label (SetText i _) = i"

definition label_calls :: "nat \<Rightarrow> int \<Rightarrow> ui_call list" where
  "label_calls i e = [SetStyleSheet i (label_style e), SetText i (label_text e)]"

definition calls_for :: "nat \<Rightarrow> ui_call list \<Rightarrow> ui_call list" where
  "calls_for i q = filter (\<lambda>c. ui_label c = i) q"

text \<open>The values that differ from their predecessor in a sequence that starts after
  the cached value \<open>c\<close>; the error value \<^verbatim>\<open>updateData\<close> computes for motor \<open>i\<close> of a grid;
  and a grid of the configured shape whose error cells fit an int.\<close>

fun changes :: "int \<Rightarrow> int list \<Rightarrow> int list" where
  "changes c [] = []"
| "changes c (e # es) = (if c \<noteq> e then e # changes e es else changes e es)"

definition grid_error :: "real list list \<Rightarrow> nat \<Rightarrow> int" where
  "grid_error d i = (case static_cast_int (double_add (d ! i ! 3) 0.5) of Some e \<Rightarrow> e | None \<Rightarrow> 0)"

definition grid_ok :: "config \<Rightarrow> real list list \<Rightarrow> bool" where
  "grid_ok cfg d =
     (length d = group_count cfg \<and>
      list_all (\<lambda>r. length r = var_count cfg \<and> static_cast_int (double_add (r ! 3) 0.5) \<noteq> None) d)"

subsection \<open>Concrete inputs\<close>

definition zero_motor :: InteractiveMotorData where
  "zero_motor = \<lparr>mode = 0, index = 0, tau = 0, pos = 0, vel = 0, pos_des = 0, vel_des = 0,
     kp = 0, kd = 0, ff = 0, error = 0, temperature = 0, mos_temperature = 0\<rparr>"

text \<open>A motor reporting error 2, a frame without error, a frame whose first motor
  reports the error, datagrams of the expected and of a short size, and ten datagrams of
  which the third to the fifth carry the error.\<close>

definition error_motor :: InteractiveMotorData where
  "error_motor = zero_motor\<lparr>error := 2\<rparr>"

definition clean_frame :: frame where
  "clean_frame = replicate 13 zero_motor"

definition error_frame :: frame where
  "error_frame = error_motor # replicate 12 zero_motor"

definition datagram :: "string \<Rightarrow> frame \<Rightarrow> udp_event" where
  "datagram ts fr = \<lparr>bytesRead = 1352, recv_data = fr, clock = 0, timestamp_str = ts\<rparr>"

definition short_datagram :: udp_event where
  "short_datagram = \<lparr>bytesRead = 1351, recv_data = clean_frame, clock = 0,
                       timestamp_str = ''2025-04-03-13-00-12''\<rparr>"


text \<open>A 13 x 12 grid whose first motor has the value \<open>e\<close> at index 3, and two grids with
  13 rows and a first row of 12 values whose other rows are too short or too long.\<close>

definition error_grid :: "real \<Rightarrow> real list list" where
  "error_grid e = ([0, 0, 0, e] @ replicate 8 0) # replicate 12 (replicate 12 0)"

definition ragged_short :: "real list list" where
  "ragged_short = replicate 12 0 # [] # replicate 11 (replicate 12 0)"

definition ragged_long :: "real list list" where
  "ragged_long = replicate 12 0 # replicate 12 (replicate 13 0)"

section \<open>Decoding and the error catalogue\<close>

lemma map_of_error_text_map_unmapped:
  "e \<notin> {0, 1, 2, 3, 4, 6, 7} \<Longrightarrow> map_of error_text_map e = None"
  by (simp add: error_text_map_def)

lemma length_extract_fields: "length (extract_fields m) = 6"
  by (simp add: extract_fields_def)

lemma decode_row_eq:
  "decode_row cfg m =
     take (var_count cfg) [pos m, vel m, tau m, error m, temperature m, mos_temperature m]"
  by (simp add: decode_row_def extract_fields_def Let_def min_def)

lemma length_decode_row: "length (decode_row cfg m) = min (var_count cfg) 6"
  by (simp add: decode_row_eq)

section \<open>Loops, updateData and setData\<close>

lemma for_each_preserves:
  assumes step: "\<And>i s s'. body i s = Some s' \<Longrightarrow> f s' = f s"
    and run: "for_each body xs s = Some s'"
  shows "f s' = f s"
  using run
proof (induction xs arbitrary: s)
  case Nil
  then show ?case by simp
next
  case (Cons a xs)
  then obtain s1 where a: "body a s = Some s1" and rest: "for_each body xs s1 = Some s'"
    by (auto split: option.splits)
  from Cons.IH [OF rest] step [OF a] show ?case by simp
qed

lemma for_each_defined:
  assumes step: "\<And>i s. i \<in> set xs \<Longrightarrow> P s \<Longrightarrow> \<exists>s'. body i s = Some s' \<and> P s'"
    and init: "P s"
  shows "\<exists>s'. for_each body xs s = Some s' \<and> P s'"
  using step init
proof (induction xs arbitrary: s)
  case Nil
  then show ?case by simp
next
  case (Cons a xs)
  from Cons.prems(1) [of a s] Cons.prems(2)
  obtain s1 where a: "body a s = Some s1" and p1: "P s1" by auto
  have "\<exists>s'. for_each body xs s1 = Some s' \<and> P s'"
    by (rule Cons.IH) (use Cons.prems(1) p1 in auto)
  with a show ?case by simp
qed

lemma for_each_append:
  "for_each body (xs @ ys) s =
     (case for_each body xs s of None \<Rightarrow> None | Some s' \<Rightarrow> for_each body ys s')"
  by (induction xs arbitrary: s) (auto split: option.splits)

lemma push_point_Some:
  assumes "push_point stamp gv s = Some s'"
  shows "data_array s' = data_array s \<and> last_errors s' = last_errors s \<and>
         motor_error_labels s' = motor_error_labels s \<and> ui_queue s' = ui_queue s \<and>
         dataReceived s' = dataReceived s \<and> log_mode s' = log_mode s \<and>
         error_data_buffer s' = error_data_buffer s \<and> error_triggered s' = error_triggered s \<and>
         timestamp_str_first s' = timestamp_str_first s \<and> files s' = files s"
  using assms by (auto simp: push_point_def Let_def split: if_splits option.splits)

lemma update_label_Some:
  assumes "update_label i s = Some s'"
  shows "data_array s' = data_array s \<and> numeric s' = numeric s \<and>
         motor_error_labels s' = motor_error_labels s \<and> diagnostics s' = diagnostics s \<and>
         dataReceived s' = dataReceived s \<and> log_mode s' = log_mode s \<and>
         error_data_buffer s' = error_data_buffer s \<and> error_triggered s' = error_triggered s \<and>
         timestamp_str_first s' = timestamp_str_first s \<and> files s' = files s \<and>
         length (last_errors s') = length (last_errors s)"
  using assms by (auto simp: update_label_def split: if_splits option.splits)

lemma updateData_Some:
  assumes "updateData cfg stamp s = Some s'"
  shows "data_array s' = data_array s \<and> motor_error_labels s' = motor_error_labels s \<and>
         log_mode s' = log_mode s \<and>
         error_data_buffer s' = error_data_buffer s \<and> error_triggered s' = error_triggered s \<and>
         timestamp_str_first s' = timestamp_str_first s \<and> files s' = files s \<and>
         length (last_errors s') = length (last_errors s)"
proof -
  let ?P = "\<lambda>t. (data_array t, motor_error_labels t, log_mode t, error_data_buffer t,
                  error_triggered t, timestamp_str_first t, files t, length (last_errors t))"
  from assms obtain s1 s2 where
    push: "for_each (push_point stamp)
             (List.product [0..<group_count cfg] [0..<var_count cfg]) s = Some s1"
    and lab: "(if motor_error_labels s1 \<noteq> 0
               then for_each update_label
                      [0..<min (group_count cfg) (motor_error_labels s1)] s1
               else Some s1) = Some s2"
    and fin: "s' = s2\<lparr>dataReceived := dataReceived s2 + 1\<rparr>"
    by (auto simp: updateData_def split: option.splits)
  have 1: "?P s1 = ?P s"
    by (rule for_each_preserves [OF _ push]) (use push_point_Some in fastforce)
  have 2: "?P s2 = ?P s1"
  proof (cases "motor_error_labels s1 \<noteq> 0")
    case True
    with lab have "for_each update_label
                      [0..<min (group_count cfg) (motor_error_labels s1)] s1 = Some s2" by simp
    then show ?thesis
      by (rule for_each_preserves [rotated]) (use update_label_Some in fastforce)
  next
    case False
    with lab show ?thesis by simp
  qed
  from 1 2 fin show ?thesis by simp
qed

lemma setData_Some:
  assumes "setData cfg stamp data s = Some s'"
  shows "motor_error_labels s' = motor_error_labels s \<and>
         log_mode s' = log_mode s \<and>
         error_data_buffer s' = error_data_buffer s \<and> error_triggered s' = error_triggered s \<and>
         timestamp_str_first s' = timestamp_str_first s \<and> files s' = files s \<and>
         length (last_errors s') = length (last_errors s)"
  using assms
  by (auto simp: setData_def split: if_splits list.splits dest!: updateData_Some)

lemma setData_rejects:
  assumes "length data \<noteq> group_count cfg \<or> (data \<noteq> [] \<and> length (hd data) \<noteq> var_count cfg)"
  shows "setData cfg stamp data s = Some (s\<lparr>diagnostics := diagnostics s @ [InvalidDataSize]\<rparr>)"
  using assms by (auto simp: setData_def split: list.splits)

lemma fold_printMotorDataToFile:
  "fold (\<lambda>fr. printMotorDataToFile can_open fr n path ts) frs s =
     (if can_open path
      then s\<lparr>files := files s @ map (\<lambda>fr. (path, ts, take n fr)) frs\<rparr>
      else s\<lparr>diagnostics := diagnostics s @ replicate (length frs) (CannotOpenFile path)\<rparr>)"
  by (induction frs arbitrary: s)
     (simp_all add: printMotorDataToFile_def replicate_app_Cons_same)

lemma push_point_defined:
  assumes "fst gv < length (data_array s)" and "snd gv < length (data_array s ! fst gv)"
  shows "\<exists>s'. push_point stamp gv s = Some s'"
  using assms by (simp add: push_point_def Let_def lookup_cell_def split: option.splits)

lemma update_label_defined:
  assumes "i < length (data_array s)" and "3 < length (data_array s ! i)"
    and "static_cast_int (double_add (data_array s ! i ! 3) 0.5) \<noteq> None"
    and "i < length (last_errors s)"
  shows "\<exists>s'. update_label i s = Some s'"
  using assms by (auto simp: update_label_def lookup_cell_def split: option.splits)

lemma updateData_defined:
  assumes rows: "\<forall>g<group_count cfg.
                   g < length (data_array s) \<and> var_count cfg \<le> length (data_array s ! g)"
    and lab: "motor_error_labels s = 0 \<or>
              (4 \<le> var_count cfg \<and> group_count cfg \<le> length (last_errors s) \<and>
               (\<forall>g<group_count cfg. static_cast_int (double_add (data_array s ! g ! 3) 0.5) \<noteq> None))"
  shows "\<exists>s'. updateData cfg stamp s = Some s'"
proof -
  let ?P = "\<lambda>t::stream_state. data_array t = data_array s \<and> last_errors t = last_errors s \<and>
                 motor_error_labels t = motor_error_labels s"
  have "\<exists>s1. for_each (push_point stamp)
               (List.product [0..<group_count cfg] [0..<var_count cfg]) s = Some s1 \<and> ?P s1"
  proof (rule for_each_defined)
    fix gv t
    assume gv: "gv \<in> set (List.product [0..<group_count cfg] [0..<var_count cfg])"
      and t: "?P t"
    from gv have "fst gv < group_count cfg" and "snd gv < var_count cfg" by auto
    with rows t have "fst gv < length (data_array t)"
      and "snd gv < length (data_array t ! fst gv)" by (auto simp: less_le_trans)
    then obtain t' where t': "push_point stamp gv t = Some t'"
      using push_point_defined by blast
    with push_point_Some [OF t'] t show "\<exists>t'. push_point stamp gv t = Some t' \<and> ?P t'"
      by simp
  qed simp
  then obtain s1 where push: "for_each (push_point stamp)
               (List.product [0..<group_count cfg] [0..<var_count cfg]) s = Some s1"
    and s1: "?P s1" by blast
  let ?Q = "\<lambda>t::stream_state. data_array t = data_array s \<and> length (last_errors t) = length (last_errors s)"
  have "\<exists>s2. (if motor_error_labels s1 \<noteq> 0
               then for_each update_label
                      [0..<min (group_count cfg) (motor_error_labels s1)] s1
               else Some s1) = Some s2"
  proof (cases "motor_error_labels s1 \<noteq> 0")
    case True
    with s1 lab have vc: "4 \<le> var_count cfg"
      and le: "group_count cfg \<le> length (last_errors s)"
      and cast: "\<forall>g<group_count cfg. static_cast_int (double_add (data_array s ! g ! 3) 0.5) \<noteq> None"
      by auto
    have "\<exists>s2. for_each update_label
               [0..<min (group_count cfg) (motor_error_labels s1)] s1 = Some s2 \<and> ?Q s2"
    proof (rule for_each_defined)
      fix i t
      assume i: "i \<in> set [0..<min (group_count cfg) (motor_error_labels s1)]" and t: "?Q t"
      then have ig: "i < group_count cfg" by simp
      with rows vc t have "i < length (data_array t)" and "3 < length (data_array t ! i)"
        by (auto simp: less_le_trans)
      moreover from cast ig t have "static_cast_int (double_add (data_array t ! i ! 3) 0.5) \<noteq> None"
        by simp
      moreover from ig le t have "i < length (last_errors t)" by simp
      ultimately obtain t' where t': "update_label i t = Some t'"
        using update_label_defined by blast
      with update_label_Some [OF t'] t show "\<exists>t'. update_label i t = Some t' \<and> ?Q t'"
        by simp
    next
      from s1 show "?Q s1" by simp
    qed
    with True show ?thesis by auto
  next
    case False
    then show ?thesis by simp
  qed
  with push show ?thesis by (auto simp: updateData_def)
qed

lemma setData_accepts:
  assumes "length data = group_count cfg" and "data \<noteq> []"
    and "length (hd data) = var_count cfg"
  shows "setData cfg stamp data s = updateData cfg stamp (s\<lparr>data_array := data\<rparr>)"
  using assms by (cases data) (simp_all add: setData_def)

lemma log_frame_no_flush:
  assumes "log_mode s \<noteq> 1" and "\<not> frame_has_error (recv_data ev)"
  shows "log_frame can_open ev s = s"
  using assms by (simp add: log_frame_def)

lemma log_frame_flush:
  assumes "log_mode s = 1 \<or> frame_has_error (recv_data ev)"
  defines "path \<equiv> log_path (log_mode s) (first_timestamp s ev)"
  shows "error_data_buffer (log_frame can_open ev s) = []"
    and "timestamp_str_first (log_frame can_open ev s) = first_timestamp s ev"
    and "files (log_frame can_open ev s) =
           files s @ (if can_open path
                      then map (\<lambda>fr. (path, timestamp_str ev, take MOTOR_COUNT fr))
                             (error_data_buffer s @ [take MOTOR_COUNT (recv_data ev)])
                      else [])"
    and "diagnostics (log_frame can_open ev s) =
           diagnostics s @
           (if can_open path then []
            else replicate (Suc (length (error_data_buffer s))) (CannotOpenFile path)) @
           [LogExported path]"
    and "error_triggered (log_frame can_open ev s) = (log_mode s \<noteq> 0 \<and> error_triggered s)"
    and "log_mode (log_frame can_open ev s) = log_mode s"
    and "data_array (log_frame can_open ev s) = data_array s"
    and "numeric (log_frame can_open ev s) = numeric s"
    and "last_errors (log_frame can_open ev s) = last_errors s"
    and "motor_error_labels (log_frame can_open ev s) = motor_error_labels s"
    and "ui_queue (log_frame can_open ev s) = ui_queue s"
  using assms(1) unfolding path_def
  by (auto simp: log_frame_def Let_def fold_printMotorDataToFile log_path_def
      first_timestamp_def)

lemma log_frame_keeps:
  "data_array (log_frame can_open ev s) = data_array s \<and>
   numeric (log_frame can_open ev s) = numeric s \<and>
   last_errors (log_frame can_open ev s) = last_errors s \<and>
   motor_error_labels (log_frame can_open ev s) = motor_error_labels s \<and>
   ui_queue (log_frame can_open ev s) = ui_queue s \<and>
   dataReceived (log_frame can_open ev s) = dataReceived s \<and>
   log_mode (log_frame can_open ev s) = log_mode s"
  by (simp add: log_frame_def Let_def fold_printMotorDataToFile)

lemma receive_iteration_rejected:
  assumes "\<not> accepted ev"
  shows "receive_iteration cfg can_open ev s =
           Some (s\<lparr>diagnostics := diagnostics s @ [SizeMismatch (bytesRead ev)]\<rparr>)"
  using assms by (simp add: receive_iteration_def accepted_def)

lemma receive_iteration_accepted:
  assumes "accepted ev" and "receive_iteration cfg can_open ev s = Some s'"
  obtains data s1 where "decode_frame cfg (recv_data ev) = Some data"
    and "setData cfg (clock ev) data s = Some s1"
    and "s' = log_frame can_open ev s1"
  using assms by (auto simp: receive_iteration_def accepted_def split: option.splits)

lemma decode_frame_Some:
  assumes "group_count cfg \<le> length recv"
  shows "decode_frame cfg recv = Some (map (\<lambda>i. decode_row cfg (recv ! i)) [0..<group_count cfg])"
  using assms by (simp add: decode_frame_def)

lemma decode_row_error_cell:
  assumes "4 \<le> var_count cfg"
  shows "decode_row cfg m ! 3 = error m"
  using assms by (simp add: decode_row_eq)

lemma setData_decoded_defined:
  assumes ok: "instance_ok cfg s" and fr: "frame_ok ev"
  shows "\<exists>s1. setData cfg stamp (map (\<lambda>i. decode_row cfg (recv_data ev ! i)) [0..<group_count cfg]) s
               = Some s1"
proof -
  let ?rows = "map (\<lambda>i. decode_row cfg (recv_data ev ! i)) [0..<group_count cfg]"
  from ok have gc: "0 < group_count cfg" and le: "group_count cfg \<le> MOTOR_COUNT"
    and cache: "length (last_errors s) = group_count cfg"
    and lab: "motor_error_labels s = 0 \<or> 4 \<le> var_count cfg"
    by (simp_all add: instance_ok_def)
  from gc have ne: "?rows \<noteq> []" by simp
  from gc have hd: "hd ?rows = decode_row cfg (recv_data ev ! 0)"
    by (simp add: hd_map upt_conv_Cons)
  show ?thesis
  proof (cases "var_count cfg \<le> 6")
    case False
    then have "length (hd ?rows) \<noteq> var_count cfg"
      by (simp add: hd length_decode_row)
    with ne show ?thesis by (simp add: setData_rejects)
  next
    case True
    then have "length (hd ?rows) = var_count cfg"
      by (simp add: hd length_decode_row)
    with ne have eq: "setData cfg stamp ?rows s = updateData cfg stamp (s\<lparr>data_array := ?rows\<rparr>)"
      by (simp add: setData_accepts)
    have "\<exists>s1. updateData cfg stamp (s\<lparr>data_array := ?rows\<rparr>) = Some s1"
    proof (rule updateData_defined)
      show "\<forall>g<group_count cfg. g < length (data_array (s\<lparr>data_array := ?rows\<rparr>)) \<and>
              var_count cfg \<le> length (data_array (s\<lparr>data_array := ?rows\<rparr>) ! g)"
        using True by (simp add: length_decode_row)
    next
      have "static_cast_int (double_add (?rows ! g ! 3) 0.5) \<noteq> None"
        if g: "g < group_count cfg" and vc: "4 \<le> var_count cfg" for g
      proof -
        from g le fr have "recv_data ev ! g \<in> set (recv_data ev)"
          by (simp add: frame_ok_def)
        with fr have "static_cast_int (double_add (error (recv_data ev ! g)) 0.5) \<noteq> None"
          by (simp add: frame_ok_def list_all_iff)
        with g vc show ?thesis by (simp add: decode_row_error_cell)
      qed
      with lab cache
      show "motor_error_labels (s\<lparr>data_array := ?rows\<rparr>) = 0 \<or>
            (4 \<le> var_count cfg \<and>
             group_count cfg \<le> length (last_errors (s\<lparr>data_array := ?rows\<rparr>)) \<and>
             (\<forall>g<group_count cfg.
                static_cast_int (double_add (data_array (s\<lparr>data_array := ?rows\<rparr>) ! g ! 3) 0.5) \<noteq> None))"
        by auto
    qed
    with eq show ?thesis by simp
  qed
qed

lemma receive_iteration_defined:
  assumes ok: "instance_ok cfg s" and fr: "frame_ok ev"
  shows "\<exists>s'. receive_iteration cfg can_open ev s = Some s' \<and> instance_ok cfg s'"
proof (cases "accepted ev")
  case False
  with ok show ?thesis by (simp add: receive_iteration_rejected instance_ok_def)
next
  case True
  from ok fr have "group_count cfg \<le> length (recv_data ev)"
    by (simp add: instance_ok_def frame_ok_def)
  then have dec: "decode_frame cfg (recv_data ev) =
      Some (map (\<lambda>i. decode_row cfg (recv_data ev ! i)) [0..<group_count cfg])"
    by (rule decode_frame_Some)
  from setData_decoded_defined [OF ok fr] obtain s1 where
    set: "setData cfg (clock ev) (map (\<lambda>i. decode_row cfg (recv_data ev ! i)) [0..<group_count cfg]) s
            = Some s1" by blast
  from True dec set have it: "receive_iteration cfg can_open ev s = Some (log_frame can_open ev s1)"
    by (simp add: receive_iteration_def accepted_def)
  from setData_Some [OF set] ok have "instance_ok cfg (log_frame can_open ev s1)"
    by (simp add: instance_ok_def log_frame_keeps)
  with it show ?thesis by simp
qed

lemma receiveUDPData_defined:
  assumes "instance_ok cfg s" and "\<forall>ev\<in>set evs. frame_ok ev"
  shows "\<exists>s'. receiveUDPData cfg can_open evs s = Some s' \<and> instance_ok cfg s'"
  unfolding receiveUDPData_def
  by (rule for_each_defined) (use assms receive_iteration_defined in auto)

lemma receive_iteration_log:
  assumes acc: "accepted ev" and it: "receive_iteration cfg can_open ev s = Some s'"
  shows "\<exists>s1. s' = log_frame can_open ev s1 \<and> log_mode s1 = log_mode s \<and>
           error_data_buffer s1 = error_data_buffer s \<and> error_triggered s1 = error_triggered s \<and>
           timestamp_str_first s1 = timestamp_str_first s \<and> files s1 = files s"
proof -
  from acc it obtain data s1 where set: "setData cfg (clock ev) data s = Some s1"
    and s': "s' = log_frame can_open ev s1"
    by (rule receive_iteration_accepted)
  from setData_Some [OF set] s' show ?thesis by blast
qed

lemma run_first_timestamp_skip:
  assumes "\<not> logged (log_mode s) ev" and "log_mode s1 = log_mode s"
    and "timestamp_str_first s1 = timestamp_str_first s"
  shows "run_first_timestamp s (ev # evs) = run_first_timestamp s1 evs"
  using assms by (simp add: run_first_timestamp_def)

lemma run_first_timestamp_set:
  assumes "timestamp_str_first s \<noteq> []"
  shows "run_first_timestamp s evs = timestamp_str_first s"
  using assms by (simp add: run_first_timestamp_def)

lemma run_first_timestamp_logged:
  assumes "logged (log_mode s) ev"
  shows "run_first_timestamp s (ev # evs) = first_timestamp s ev"
  using assms by (simp add: run_first_timestamp_def first_timestamp_def)

lemma receiveUDPData_log:
  assumes run: "receiveUDPData cfg can_open evs s = Some s'"
    and empty: "error_data_buffer s = []"
    and ts: "\<forall>ev\<in>set evs. timestamp_str ev \<noteq> []"
  shows "files s' =
           files s @
           (if can_open (log_path (log_mode s) (run_first_timestamp s evs))
            then map (\<lambda>ev. (log_path (log_mode s) (run_first_timestamp s evs),
                           timestamp_str ev, take MOTOR_COUNT (recv_data ev)))
                   (filter (logged (log_mode s)) evs)
            else []) \<and>
         error_data_buffer s' = [] \<and> log_mode s' = log_mode s \<and>
         timestamp_str_first s' = run_first_timestamp s evs \<and>
         (error_triggered s' \<longrightarrow> error_triggered s)"
  using run empty ts
proof (induction evs arbitrary: s)
  case Nil
  then show ?case by (simp add: receiveUDPData_def run_first_timestamp_def)
next
  case (Cons ev evs)
  from Cons.prems(1) obtain s2 where it: "receive_iteration cfg can_open ev s = Some s2"
    and rest: "receiveUDPData cfg can_open evs s2 = Some s'"
    by (auto simp: receiveUDPData_def split: option.splits)
  from Cons.prems(3) have ts': "\<forall>ev\<in>set evs. timestamp_str ev \<noteq> []"
    and tsev: "timestamp_str ev \<noteq> []" by simp_all
  show ?case
  proof (cases "logged (log_mode s) ev")
    case False
    have same: "log_mode s2 = log_mode s \<and> error_data_buffer s2 = error_data_buffer s \<and>
        error_triggered s2 = error_triggered s \<and>
        timestamp_str_first s2 = timestamp_str_first s \<and> files s2 = files s"
    proof (cases "accepted ev")
      case True
      from receive_iteration_log [OF True it] obtain s1 where
        s2: "s2 = log_frame can_open ev s1" and s1: "log_mode s1 = log_mode s"
        "error_data_buffer s1 = error_data_buffer s" "error_triggered s1 = error_triggered s"
        "timestamp_str_first s1 = timestamp_str_first s" "files s1 = files s" by blast
      from False True s1 have "log_frame can_open ev s1 = s1"
        by (simp add: logged_def log_frame_no_flush)
      with s2 s1 show ?thesis by simp
    next
      case False
      with it show ?thesis by (auto simp: receive_iteration_rejected)
    qed
    with Cons.prems(2) have e2: "error_data_buffer s2 = []" by simp
    from same False have rft: "run_first_timestamp s (ev # evs) = run_first_timestamp s2 evs"
      by (intro run_first_timestamp_skip) simp_all
    from Cons.IH [OF rest e2 ts'] same False rft show ?thesis by simp
  next
    case True
    then have acc: "accepted ev"
      and fl: "log_mode s = 1 \<or> frame_has_error (recv_data ev)" by (simp_all add: logged_def)
    from receive_iteration_log [OF acc it] obtain s1 where
      s2: "s2 = log_frame can_open ev s1" and s1: "log_mode s1 = log_mode s"
      "error_data_buffer s1 = error_data_buffer s" "error_triggered s1 = error_triggered s"
      "timestamp_str_first s1 = timestamp_str_first s" "files s1 = files s" by blast
    from fl s1 have fl1: "log_mode s1 = 1 \<or> frame_has_error (recv_data ev)" by simp
    from s1 have ft: "first_timestamp s1 ev = first_timestamp s ev"
      by (simp add: first_timestamp_def)
    from tsev have ne: "first_timestamp s ev \<noteq> []" by (simp add: first_timestamp_def)
    note flush = log_frame_flush [OF fl1, of can_open]
    from flush(1) s2 have e2: "error_data_buffer s2 = []" by simp
    from flush(2) s2 ft have t2: "timestamp_str_first s2 = first_timestamp s ev" by simp
    from flush(6) s2 s1 have m2: "log_mode s2 = log_mode s" by simp
    from flush(5) s2 s1 have tr2: "error_triggered s2 \<longrightarrow> error_triggered s" by simp
    from flush(3) s2 s1 ft Cons.prems(2)
    have f2: "files s2 =
        files s @ (if can_open (log_path (log_mode s) (first_timestamp s ev))
                   then [(log_path (log_mode s) (first_timestamp s ev), timestamp_str ev,
                          take MOTOR_COUNT (recv_data ev))]
                   else [])"
      by simp
    from True have r1: "run_first_timestamp s (ev # evs) = first_timestamp s ev"
      by (rule run_first_timestamp_logged)
    from t2 ne have r2: "run_first_timestamp s2 evs = first_timestamp s ev"
      by (simp add: run_first_timestamp_set)
    from Cons.IH [OF rest e2 ts'] True f2 m2 tr2 r1 r2 show ?thesis by simp
  qed
qed

lemma calls_for_Nil: "calls_for i [] = []"
  by (simp add: calls_for_def)

lemma calls_for_append: "calls_for i (q @ r) = calls_for i q @ calls_for i r"
  by (simp add: calls_for_def)

lemma calls_for_label_calls:
  "calls_for i (label_calls a e) = (if a = i then label_calls a e else [])"
  by (simp add: calls_for_def label_calls_def)

lemma update_label_step:
  assumes "update_label a s = Some s1"
  shows "\<exists>e. static_cast_int (double_add (data_array s ! a ! 3) 0.5) = Some e \<and>
             a < length (data_array s) \<and> 3 < length (data_array s ! a) \<and>
             a < length (last_errors s) \<and>
             last_errors s1 = (last_errors s)[a := e] \<and>
             ui_queue s1 = ui_queue s @ (if last_errors s ! a \<noteq> e then label_calls a e else []) \<and>
             data_array s1 = data_array s"
proof -
  from assms obtain x where x: "lookup_cell (data_array s) a 3 = Some x"
    by (cases "lookup_cell (data_array s) a 3") (simp_all add: update_label_def)
  from assms x obtain e where e: "static_cast_int (double_add x 0.5) = Some e"
    by (cases "static_cast_int (double_add x 0.5)") (simp_all add: update_label_def)
  from x have rng: "a < length (data_array s)" "3 < length (data_array s ! a)"
    and xv: "x = data_array s ! a ! 3"
    by (simp_all add: lookup_cell_def split: if_splits)
  from assms x e have alen: "a < length (last_errors s)"
    by (simp add: update_label_def split: if_splits)
  show ?thesis
  proof (cases "last_errors s ! a = e")
    case True
    with assms x e alen have "s1 = s" by (simp add: update_label_def)
    moreover from True have "(last_errors s)[a := e] = last_errors s"
      by (metis list_update_id)
    ultimately show ?thesis using True e xv rng alen by simp
  next
    case False
    with assms x e alen have
      "s1 = s\<lparr>last_errors := (last_errors s)[a := e],
              ui_queue := ui_queue s @ label_calls a e\<rparr>"
      by (simp add: update_label_def label_calls_def)
    with False e xv rng alen show ?thesis by simp
  qed
qed

lemma for_each_update_label:
  assumes "for_each update_label xs s = Some s'" and "distinct xs"
  shows "data_array s' = data_array s \<and>
         (i \<notin> set xs \<longrightarrow>
            last_errors s' ! i = last_errors s ! i \<and>
            calls_for i (ui_queue s') = calls_for i (ui_queue s)) \<and>
         (i \<in> set xs \<longrightarrow>
            (\<exists>e. static_cast_int (double_add (data_array s ! i ! 3) 0.5) = Some e \<and>
                 last_errors s' ! i = e \<and>
                 calls_for i (ui_queue s') =
                   calls_for i (ui_queue s) @
                   (if last_errors s ! i \<noteq> e then label_calls i e else [])))"
  using assms
proof (induction xs arbitrary: s)
  case Nil
  then show ?case by simp
next
  case (Cons a xs)
  from Cons.prems(1) obtain s1 where a: "update_label a s = Some s1"
    and rest: "for_each update_label xs s1 = Some s'"
    by (auto split: option.splits)
  from Cons.prems(2) have dist: "distinct xs" and notin: "a \<notin> set xs" by simp_all
  from update_label_step [OF a] obtain e where
    e: "static_cast_int (double_add (data_array s ! a ! 3) 0.5) = Some e"
    and alen: "a < length (last_errors s)"
    and le1: "last_errors s1 = (last_errors s)[a := e]"
    and q1: "ui_queue s1 = ui_queue s @ (if last_errors s ! a \<noteq> e then label_calls a e else [])"
    and d1: "data_array s1 = data_array s" by blast
  note ih = Cons.IH [OF rest dist]
  show ?case
  proof (cases "i = a")
    case True
    with ih notin have "last_errors s' ! i = last_errors s1 ! i"
      and "calls_for i (ui_queue s') = calls_for i (ui_queue s1)" by simp_all
    with True e alen le1 q1 d1 ih show ?thesis
      by (simp add: calls_for_append calls_for_label_calls calls_for_Nil)
  next
    case False
    with le1 have l: "last_errors s1 ! i = last_errors s ! i" by simp
    from False q1 have q: "calls_for i (ui_queue s1) = calls_for i (ui_queue s)"
      by (simp add: calls_for_append calls_for_label_calls calls_for_Nil)
    from False ih l q d1 show ?thesis by simp
  qed
qed

lemma for_each_push_point_keeps:
  assumes "for_each (push_point stamp) xs s = Some s'"
  shows "data_array s' = data_array s \<and> last_errors s' = last_errors s \<and>
         motor_error_labels s' = motor_error_labels s \<and> ui_queue s' = ui_queue s"
proof -
  have "(data_array s', last_errors s', motor_error_labels s', ui_queue s') =
        (data_array s, last_errors s, motor_error_labels s, ui_queue s)"
    by (rule for_each_preserves [OF _ assms]) (use push_point_Some in fastforce)
  then show ?thesis by simp
qed

lemma updateData_label:
  assumes run: "updateData cfg stamp s = Some s'"
    and i: "i < min (group_count cfg) (motor_error_labels s)"
  shows "\<exists>e. static_cast_int (double_add (data_array s ! i ! 3) 0.5) = Some e \<and>
             last_errors s' ! i = e \<and>
             calls_for i (ui_queue s') =
               calls_for i (ui_queue s) @
               (if last_errors s ! i \<noteq> e then label_calls i e else [])"
proof -
  from run obtain s1 s2 where
    push: "for_each (push_point stamp)
             (List.product [0..<group_count cfg] [0..<var_count cfg]) s = Some s1"
    and lab: "(if motor_error_labels s1 \<noteq> 0
               then for_each update_label
                      [0..<min (group_count cfg) (motor_error_labels s1)] s1
               else Some s1) = Some s2"
    and fin: "s' = s2\<lparr>dataReceived := dataReceived s2 + 1\<rparr>"
    by (auto simp: updateData_def split: option.splits)
  note keep = for_each_push_point_keeps [OF push]
  from i keep have ne: "motor_error_labels s1 \<noteq> 0" by simp
  with lab have loop: "for_each update_label
      [0..<min (group_count cfg) (motor_error_labels s1)] s1 = Some s2" by simp
  from i keep have mem: "i \<in> set [0..<min (group_count cfg) (motor_error_labels s1)]" by simp
  from for_each_update_label [OF loop, of i] mem keep fin show ?thesis by simp
qed

section \<open>Facts about the concrete inputs and the default construction\<close>

lemma accepted_datagram: "accepted (datagram ts fr)"
  by (simp add: accepted_def datagram_def sizeof_recv_data_def MOTOR_COUNT_def
      sizeof_InteractiveMotorData_def)

lemma datagram_sel:
  "recv_data (datagram ts fr) = fr" "timestamp_str (datagram ts fr) = ts"
  "clock (datagram ts fr) = 0"
  by (simp_all add: datagram_def)

lemma frame_has_error_clean: "\<not> frame_has_error clean_frame"
  by (simp add: frame_has_error_def clean_frame_def zero_motor_def list_ex_iff)

lemma frame_has_error_error: "frame_has_error error_frame"
  by (simp add: frame_has_error_def error_frame_def error_motor_def MOTOR_COUNT_def)

lemma length_frames: "length clean_frame = MOTOR_COUNT" "length error_frame = MOTOR_COUNT"
  by (simp_all add: clean_frame_def error_frame_def MOTOR_COUNT_def)

lemma round_half_even_of_int: "round_half_even (of_int k) = k"
  by (simp add: round_half_even_def)

lemma binary64_quantum_eq:
  assumes lo: "power_int 2 e \<le> \<bar>r\<bar>" and hi: "\<bar>r\<bar> < power_int 2 (e + 1)"
    and normal: "- 1022 \<le> e"
  shows "binary64_quantum r = power_int 2 (e - 52)"
proof -
  have pos: "0 < \<bar>r\<bar>"
    using lo by (rule less_le_trans [rotated]) (simp add: power_int_def)
  have "(2::real) powr of_int e = power_int 2 e"
    and "(2::real) powr (of_int e + 1) = power_int 2 (e + 1)"
    using powr_real_of_int' [of 2 e] powr_real_of_int' [of 2 "e + 1"] by simp_all
  with lo hi have "(2::real) powr of_int e \<le> \<bar>r\<bar> \<and> \<bar>r\<bar> < 2 powr (of_int e + 1)"
    by simp
  then have "\<lfloor>log 2 \<bar>r\<bar>\<rfloor> = e"
    using pos by (simp add: floor_log_eq_powr_iff)
  moreover from normal have "max (e - 52) (- 1074) = e - 52" by linarith
  ultimately show ?thesis by (simp only: binary64_quantum_def)
qed

lemma round_binary64_multiple:
  assumes "binary64_quantum r = q" and "q \<noteq> 0" and "r = of_int k * q"
  shows "round_binary64 r = r"
proof -
  from assms have "r / binary64_quantum r = of_int k" by simp
  then have "round_half_even (r / binary64_quantum r) = k"
    by (simp only: round_half_even_of_int)
  with assms show ?thesis by (simp add: round_binary64_def)
qed

lemma double_add_half:
  "double_add 0 (1 / 2) = 1 / 2" "double_add 2 (1 / 2) = 5 / 2"
  "double_add (- 2) (1 / 2) = - (3 / 2)"
proof -
  have "binary64_quantum (1 / 2) = power_int 2 (- 1 - 52)"
    by (rule binary64_quantum_eq) (simp_all add: power_int_minus)
  then have "round_binary64 (1 / 2) = 1 / 2"
    by (rule round_binary64_multiple [where k = "2 ^ 52"]) (simp_all add: power_int_minus)
  then show "double_add 0 (1 / 2) = 1 / 2" by (simp add: double_add_def)
  have "binary64_quantum (5 / 2) = power_int 2 (1 - 52)"
    by (rule binary64_quantum_eq) (simp_all add: power_int_minus)
  then have "round_binary64 (5 / 2) = 5 / 2"
    by (rule round_binary64_multiple [where k = "5 * 2 ^ 50"]) (simp_all add: power_int_minus)
  then show "double_add 2 (1 / 2) = 5 / 2" by (simp add: double_add_def)
  have "binary64_quantum (- (3 / 2)) = power_int 2 (0 - 52)"
    by (rule binary64_quantum_eq) (simp_all add: power_int_minus)
  then have "round_binary64 (- (3 / 2)) = - (3 / 2)"
    by (rule round_binary64_multiple [where k = "- (3 * 2 ^ 51)"])
       (simp_all add: power_int_minus)
  then show "double_add (- 2) (1 / 2) = - (3 / 2)" by (simp add: double_add_def)
qed

lemma static_cast_int_half:
  "static_cast_int (double_add 0 (1 / 2)) = Some 0"
  "static_cast_int (double_add 2 (1 / 2)) = Some 2"
  "static_cast_int (double_add (- 2) (1 / 2)) = Some (- 1)"
  by (simp_all add: double_add_half static_cast_int_def)

lemma double_add_ties_to_even:
  "static_cast_int (double_add (1 / 2 - 1 / 2 ^ 54) (1 / 2)) = Some 1"
proof -
  have q: "binary64_quantum (1 - 1 / 2 ^ 54) = power_int 2 (- 1 - 52)"
    by (rule binary64_quantum_eq) (simp_all add: power_int_minus)
  have v: "(1 - 1 / 2 ^ 54 :: real) / power_int 2 (- 1 - 52) = of_int (2 ^ 53 - 1) + 1 / 2"
    by (simp add: power_int_minus)
  have "round_half_even (of_int (2 ^ 53 - 1) + 1 / 2) = 2 ^ 53"
    by (simp add: round_half_even_def Let_def)
  with v have r: "round_half_even ((1 - 1 / 2 ^ 54) / power_int 2 (- 1 - 52)) = 2 ^ 53"
    by (simp only:)
  have ne: "(1 - 1 / 2 ^ 54 :: real) \<noteq> 0" by simp
  have "(1 / 2 - 1 / 2 ^ 54 :: real) + 1 / 2 = 1 - 1 / 2 ^ 54" by simp
  then have "double_add (1 / 2 - 1 / 2 ^ 54) (1 / 2) = round_binary64 (1 - 1 / 2 ^ 54)"
    by (simp only: double_add_def)
  also have "\<dots> = of_int (2 ^ 53) * power_int 2 (- 1 - 52)"
    by (simp only: round_binary64_def q r ne if_False)
  also have "\<dots> = 1" by (simp add: power_int_minus)
  finally show ?thesis by (simp add: static_cast_int_def)
qed

lemma frame_ok_datagram: "frame_ok (datagram ts clean_frame)" "frame_ok (datagram ts error_frame)"
  by (simp_all add: frame_ok_def datagram_sel length_frames clean_frame_def error_frame_def
      zero_motor_def error_motor_def static_cast_int_half list_all_iff MOTOR_COUNT_def)

lemma instance_ok_constructed:
  assumes "0 < group_count cfg" and "group_count cfg \<le> MOTOR_COUNT"
  shows "instance_ok cfg (DataStreamSample cfg)"
  using assms by (simp add: instance_ok_def DataStreamSample_def initial_log_mode_def)

lemma default_rows:
  assumes "length recv = MOTOR_COUNT"
  shows "\<exists>rows. decode_frame default_config recv = Some rows \<and> length rows = 13 \<and>
           list_all (\<lambda>r. length r = 6) rows \<and>
           (\<forall>stamp t. setData default_config stamp rows t =
                Some (t\<lparr>diagnostics := diagnostics t @ [InvalidDataSize]\<rparr>))"
proof -
  let ?rows = "map (\<lambda>i. decode_row default_config (recv ! i)) [0..<group_count default_config]"
  from assms have dec: "decode_frame default_config recv = Some ?rows"
    by (simp add: decode_frame_Some default_config_def MOTOR_COUNT_def)
  have len: "length ?rows = 13" by (simp add: default_config_def)
  have six: "list_all (\<lambda>r. length r = 6) ?rows"
    by (simp add: list_all_iff length_decode_row default_config_def)
  have "?rows \<noteq> []" by (simp add: default_config_def)
  moreover from this six have "length (hd ?rows) \<noteq> var_count default_config"
    by (cases ?rows) (simp_all add: default_config_def)
  ultimately have "setData default_config stamp ?rows t =
      Some (t\<lparr>diagnostics := diagnostics t @ [InvalidDataSize]\<rparr>)" for stamp t
    by (simp add: setData_rejects)
  with dec len six show ?thesis by blast
qed

lemma default_iteration_keeps:
  assumes "length (recv_data ev) = MOTOR_COUNT"
  shows "\<exists>s'. receive_iteration default_config can_open ev s = Some s' \<and>
              data_array s' = data_array s \<and> numeric s' = numeric s \<and>
              last_errors s' = last_errors s \<and> ui_queue s' = ui_queue s \<and>
              dataReceived s' = dataReceived s"
proof (cases "accepted ev")
  case False
  then show ?thesis by (simp add: receive_iteration_rejected)
next
  case True
  from default_rows [OF assms] obtain rows where
    dec: "decode_frame default_config (recv_data ev) = Some rows"
    and rej: "\<And>stamp t. setData default_config stamp rows t =
                Some (t\<lparr>diagnostics := diagnostics t @ [InvalidDataSize]\<rparr>)" by blast
  from True dec rej have "receive_iteration default_config can_open ev s =
      Some (log_frame can_open ev (s\<lparr>diagnostics := diagnostics s @ [InvalidDataSize]\<rparr>))"
    by (simp add: receive_iteration_def accepted_def)
  then show ?thesis by (simp add: log_frame_keeps)
qed

lemma take_frames:
  "take MOTOR_COUNT clean_frame = clean_frame" "take MOTOR_COUNT error_frame = error_frame"
  by (simp_all add: length_frames)

lemma instance_ok_default: "instance_ok default_config (DataStreamSample default_config)"
  by (rule instance_ok_constructed) (simp_all add: default_config_def MOTOR_COUNT_def)

lemma default_iteration_accepted:
  assumes "length fr = MOTOR_COUNT"
  shows "receive_iteration default_config can_open (datagram ts fr) s =
           Some (log_frame can_open (datagram ts fr)
                   (s\<lparr>diagnostics := diagnostics s @ [InvalidDataSize]\<rparr>))"
proof -
  from default_rows [OF assms] obtain rows where
    dec: "decode_frame default_config fr = Some rows"
    and rej: "\<And>stamp t. setData default_config stamp rows t =
                Some (t\<lparr>diagnostics := diagnostics t @ [InvalidDataSize]\<rparr>)" by blast
  with accepted_datagram [of ts fr] show ?thesis
    by (simp add: receive_iteration_def accepted_def datagram_sel)
qed

lemma logged_0: "logged 0 = (\<lambda>ev. accepted ev \<and> frame_has_error (recv_data ev))"
  by (rule ext) (simp add: logged_def)

section \<open>Change detection, registration and the earlier revision\<close>

lemma updateData_grid_ok:
  assumes ok: "grid_ok cfg (data_array s)" and vc: "4 \<le> var_count cfg"
    and cache: "group_count cfg \<le> length (last_errors s)"
    and i: "i < min (group_count cfg) (motor_error_labels s)"
  shows "\<exists>s'. updateData cfg stamp s = Some s' \<and>
              last_errors s' ! i = grid_error (data_array s) i \<and>
              calls_for i (ui_queue s') =
                calls_for i (ui_queue s) @
                (if last_errors s ! i \<noteq> grid_error (data_array s) i
                 then label_calls i (grid_error (data_array s) i) else []) \<and>
              motor_error_labels s' = motor_error_labels s \<and>
              length (last_errors s') = length (last_errors s)"
proof -
  from ok have len: "length (data_array s) = group_count cfg"
    and rows: "\<forall>r\<in>set (data_array s). length r = var_count cfg \<and>
                 static_cast_int (double_add (r ! 3) 0.5) \<noteq> None"
    by (simp_all add: grid_ok_def list_all_iff)
  have row: "length (data_array s ! g) = var_count cfg \<and>
             static_cast_int (double_add (data_array s ! g ! 3) 0.5) \<noteq> None" if "g < group_count cfg" for g
    using that len rows by simp
  have "\<exists>s'. updateData cfg stamp s = Some s'"
    by (rule updateData_defined) (use len row vc cache in auto)
  then obtain s' where run: "updateData cfg stamp s = Some s'" ..
  from updateData_label [OF run i] obtain e where
    e: "static_cast_int (double_add (data_array s ! i ! 3) 0.5) = Some e"
    and le: "last_errors s' ! i = e"
    and q: "calls_for i (ui_queue s') =
              calls_for i (ui_queue s) @ (if last_errors s ! i \<noteq> e then label_calls i e else [])"
    by blast
  from e have "grid_error (data_array s) i = e" by (simp add: grid_error_def)
  with run le q updateData_Some [OF run] show ?thesis by simp
qed

lemma setData_sequence_calls:
  assumes grids: "\<forall>d\<in>set grids. grid_ok cfg d"
    and gc: "0 < group_count cfg" and vc: "4 \<le> var_count cfg"
    and cache: "group_count cfg \<le> length (last_errors s)"
    and i: "i < min (group_count cfg) (motor_error_labels s)"
  shows "\<exists>s'. for_each (setData cfg stamp) grids s = Some s' \<and>
              calls_for i (ui_queue s') =
                calls_for i (ui_queue s) @
                concat (map (label_calls i)
                  (changes (last_errors s ! i) (map (\<lambda>d. grid_error d i) grids)))"
  using grids cache i
proof (induction grids arbitrary: s)
  case Nil
  then show ?case by simp
next
  case (Cons d ds)
  from Cons.prems(1) have okd: "grid_ok cfg d" and okds: "\<forall>d\<in>set ds. grid_ok cfg d"
    by simp_all
  from okd gc have ne: "d \<noteq> []" and len: "length d = group_count cfg"
    by (auto simp: grid_ok_def)
  from ne okd have hd: "length (hd d) = var_count cfg"
    by (cases d) (simp_all add: grid_ok_def)
  from len ne hd have set: "setData cfg stamp d s = updateData cfg stamp (s\<lparr>data_array := d\<rparr>)"
    by (simp add: setData_accepts)
  let ?t = "s\<lparr>data_array := d\<rparr>"
  from okd have "grid_ok cfg (data_array ?t)" by simp
  moreover from Cons.prems(2) have "group_count cfg \<le> length (last_errors ?t)" by simp
  moreover from Cons.prems(3) have "i < min (group_count cfg) (motor_error_labels ?t)" by simp
  ultimately obtain s1 where run: "updateData cfg stamp ?t = Some s1"
    and le: "last_errors s1 ! i = grid_error d i"
    and q: "calls_for i (ui_queue s1) =
              calls_for i (ui_queue s) @
              (if last_errors s ! i \<noteq> grid_error d i then label_calls i (grid_error d i) else [])"
    and lab: "motor_error_labels s1 = motor_error_labels s"
    and cl: "length (last_errors s1) = length (last_errors s)"
    using updateData_grid_ok [OF _ vc, of ?t i stamp] by auto
  from Cons.prems(2) cl have c1: "group_count cfg \<le> length (last_errors s1)" by simp
  from Cons.prems(3) lab have i1: "i < min (group_count cfg) (motor_error_labels s1)" by simp
  from Cons.IH [OF okds c1 i1] obtain s' where
    rest: "for_each (setData cfg stamp) ds s1 = Some s'"
    and q': "calls_for i (ui_queue s') =
               calls_for i (ui_queue s1) @
               concat (map (label_calls i)
                 (changes (last_errors s1 ! i) (map (\<lambda>d. grid_error d i) ds)))"
    by blast
  from set run rest have "for_each (setData cfg stamp) (d # ds) s = Some s'" by simp
  moreover from q q' le
  have "calls_for i (ui_queue s') =
          calls_for i (ui_queue s) @
          concat (map (label_calls i)
            (changes (last_errors s ! i) (map (\<lambda>d. grid_error d i) (d # ds))))"
    by simp
  ultimately show ?case by blast
qed

lemma grid_ok_error_grid:
  "grid_ok default_config (error_grid 0)" "grid_ok default_config (error_grid 2)"
  by (simp_all add: grid_ok_def error_grid_def default_config_def static_cast_int_half
      list_all_iff)

lemma grid_error_error_grid:
  "grid_error (error_grid 0) 0 = 0" "grid_error (error_grid 2) 0 = 2"
  by (simp_all add: grid_error_def error_grid_def static_cast_int_half)

lemma label_strings:
  "label_style 0 = ''color: black;''" "label_style 2 = ''color: red;''"
  "label_text 0 = text_no_error @ '' (0)''" "label_text 2 = text_overcurrent @ '' (2)''"
  by (simp_all add: label_style_def label_text_def errorToText_def error_text_map_def
      arg_int_def digit_char_def)

lemma register_series_keeps: "m k \<noteq> None \<Longrightarrow> register_series gv m k \<noteq> None"
  by (simp add: register_series_def Let_def split: option.splits)

lemma fold_register_series_keeps: "m k \<noteq> None \<Longrightarrow> fold register_series ps m k \<noteq> None"
proof (induction ps arbitrary: m)
  case Nil
  then show ?case by simp
next
  case (Cons p ps)
  from Cons.prems have "register_series p m k \<noteq> None" by (rule register_series_keeps)
  then have "fold register_series ps (register_series p m) k \<noteq> None" by (rule Cons.IH)
  then show ?case by simp
qed

lemma register_series_registers:
  "v < length field_names \<Longrightarrow> register_series (g, v) m (series_name g v) \<noteq> None"
  by (simp add: register_series_def Let_def split: option.splits)

lemma fold_register_series_registers:
  assumes "(g, v) \<in> set ps" and "v < length field_names"
  shows "fold register_series ps m (series_name g v) \<noteq> None"
  using assms(1)
proof (induction ps arbitrary: m)
  case Nil
  then show ?case by simp
next
  case (Cons p ps)
  show ?case
  proof (cases "p = (g, v)")
    case True
    from assms(2) have "register_series (g, v) m (series_name g v) \<noteq> None"
      by (rule register_series_registers)
    then have "fold register_series ps (register_series (g, v) m) (series_name g v) \<noteq> None"
      by (rule fold_register_series_keeps)
    with True show ?thesis by simp
  next
    case False
    with Cons show ?thesis by simp
  qed
qed

lemma push_point_numeric_dom:
  assumes "push_point stamp gv s = Some s'" and "numeric s k \<noteq> None"
  shows "numeric s' k \<noteq> None"
  using assms by (auto simp: push_point_def Let_def split: if_splits option.splits)

lemma push_point_out_of_range:
  assumes "v < length field_names" and "numeric s (series_name g v) \<noteq> None"
    and "lookup_cell (data_array s) g v = None"
  shows "push_point stamp (g, v) s = None"
  using assms by (auto simp: push_point_def Let_def)

lemma for_each_push_point_None:
  assumes "(g, v) \<in> set ps" and "v < length field_names"
    and "numeric s (series_name g v) \<noteq> None"
    and "lookup_cell (data_array s) g v = None"
  shows "for_each (push_point stamp) ps s = None"
  using assms(1,3,4)
proof (induction ps arbitrary: s)
  case Nil
  then show ?case by simp
next
  case (Cons p ps)
  show ?case
  proof (cases "push_point stamp p s")
    case None
    then show ?thesis by simp
  next
    case (Some s1)
    with Cons.prems(2,3) assms(2) have "p \<noteq> (g, v)"
      using push_point_out_of_range [of v s g stamp] by auto
    with Cons.prems(1) have mem: "(g, v) \<in> set ps" by simp
    from push_point_Some [OF Some] Cons.prems(3)
    have cell: "lookup_cell (data_array s1) g v = None" by simp
    from push_point_numeric_dom [OF Some Cons.prems(2)]
    have "numeric s1 (series_name g v) \<noteq> None" .
    from Cons.IH [OF mem this cell] Some show ?thesis by simp
  qed
qed

lemma log_frame_v1_flag:
  "(\<not> error_triggered t \<and> \<not> frame_has_error (recv_data ev) \<longrightarrow>
      log_frame_v1 can_open ev t = t) \<and>
   (frame_has_error (recv_data ev) \<longrightarrow>
      \<not> error_triggered (log_frame_v1 can_open ev t) \<and>
      error_data_buffer (log_frame_v1 can_open ev t) = []) \<and>
   (error_triggered t \<and> \<not> frame_has_error (recv_data ev) \<longrightarrow>
      error_data_buffer (log_frame_v1 can_open ev t) =
        error_data_buffer t @ [take MOTOR_COUNT (recv_data ev)])"
  by (simp add: log_frame_v1_def Let_def fold_printMotorDataToFile)

lemma recvfrom_full_size: "(recvfrom len = sizeof_recv_data) = (1352 \<le> len)"
  by (auto simp: recvfrom_def sizeof_recv_data_def MOTOR_COUNT_def sizeof_InteractiveMotorData_def)

lemma mismatched_datagram_is_dropped:
  assumes "bytesRead ev \<noteq> sizeof_recv_data"
  shows "receive_iteration cfg can_open ev s =
           Some (s\<lparr>diagnostics := diagnostics s @ [SizeMismatch (bytesRead ev)]\<rparr>) \<and>
         receiveUDPData cfg can_open (ev # evs) s =
           receiveUDPData cfg can_open evs
             (s\<lparr>diagnostics := diagnostics s @ [SizeMismatch (bytesRead ev)]\<rparr>)"
  using assms by (simp add: receiveUDPData_def receive_iteration_def)

lemma short_datagram_is_dropped:
  "bytesRead short_datagram = sizeof_recv_data - 1 \<and>
   receive_iteration default_config (\<lambda>p. True) short_datagram (DataStreamSample default_config) =
     Some ((DataStreamSample default_config)\<lparr>diagnostics := [SizeMismatch 1351]\<rparr>)"
  using mismatched_datagram_is_dropped
          [of short_datagram default_config "\<lambda>p. True" "DataStreamSample default_config" "[]"]
  by (simp add: short_datagram_def sizeof_recv_data_def MOTOR_COUNT_def
      sizeof_InteractiveMotorData_def DataStreamSample_def initial_log_mode_def)

lemma updateData_no_labels:
  assumes "motor_error_labels t = 0" and run: "updateData cfg stamp t = Some t'"
  shows "ui_queue t' = ui_queue t \<and> last_errors t' = last_errors t"
proof -
  from run obtain s1 s2 where
    push: "for_each (push_point stamp)
             (List.product [0..<group_count cfg] [0..<var_count cfg]) t = Some s1"
    and lab: "(if motor_error_labels s1 \<noteq> 0
               then for_each update_label
                      [0..<min (group_count cfg) (motor_error_labels s1)] s1
               else Some s1) = Some s2"
    and fin: "t' = s2\<lparr>dataReceived := dataReceived s2 + 1\<rparr>"
    by (auto simp: updateData_def split: option.splits)
  note keep = for_each_push_point_keeps [OF push]
  with assms(1) lab have "s2 = s1" by simp
  with keep fin show ?thesis by simp
qed

lemma grid_ok_error_grid_minus:
  "grid_ok default_config (error_grid (- 2))" "grid_error (error_grid (- 2)) 0 = - 1"
  by (simp_all add: grid_ok_def grid_error_def error_grid_def default_config_def
      static_cast_int_half list_all_iff)

section \<open>Claims\<close>

text \<open>
  C10. \<^verbatim>\<open>errorToText\<close> is a total lookup: the codes 0, 1, 2, 3, 4, 6 and 7 yield their
  catalogue texts, every other integer yields the "unknown error" text, and that text
  is none of the catalogue's.
\<close>

theorem errorToText_total_lookup:
  "errorToText 0 = text_no_error \<and> errorToText 1 = text_overheat \<and>
   errorToText 2 = text_overcurrent \<and> errorToText 3 = text_undervoltage \<and>
   errorToText 4 = text_encoder \<and> errorToText 6 = text_brake_voltage \<and>
   errorToText 7 = text_drv \<and>
   (e \<notin> {0, 1, 2, 3, 4, 6, 7} \<longrightarrow> errorToText e = text_unknown) \<and>
   text_unknown \<notin> snd ` set error_text_map"
proof -
  have mapped: "errorToText 0 = text_no_error \<and> errorToText 1 = text_overheat \<and>
      errorToText 2 = text_overcurrent \<and> errorToText 3 = text_undervoltage \<and>
      errorToText 4 = text_encoder \<and> errorToText 6 = text_brake_voltage \<and>
      errorToText 7 = text_drv"
    by (simp add: errorToText_def error_text_map_def)
  have unmapped: "e \<notin> {0, 1, 2, 3, 4, 6, 7} \<longrightarrow> errorToText e = text_unknown"
    by (simp add: errorToText_def map_of_error_text_map_unmapped)
  have sentinel: "text_unknown \<notin> snd ` set error_text_map"
    by (simp add: error_text_map_def text_unknown_def text_no_error_def text_overheat_def
        text_overcurrent_def text_undervoltage_def text_encoder_def text_brake_voltage_def
        text_drv_def)
  from mapped unmapped sentinel show ?thesis by blast
qed

theorem errorToText_total_lookup_witness:
  "errorToText 99 = text_unknown \<and> errorToText 5 = text_unknown"
  using errorToText_total_lookup [of 99] errorToText_total_lookup [of 5] by simp

text \<open>
  C4 (as amended). For an accepted datagram and at most \<^verbatim>\<open>MOTOR_COUNT\<close> groups, decoding
  yields exactly \<^verbatim>\<open>_group_count\<close> rows; row i holds the first \<open>min var_count 6\<close> values
  of position, velocity, torque, error, temperature, MOS temperature of motor i. Rows
  are truncated when \<^verbatim>\<open>_var_count\<close> is below 6 and are never padded.
\<close>

theorem decode_frame_rows:
  assumes "length recv = MOTOR_COUNT" and "group_count cfg \<le> MOTOR_COUNT"
  shows "\<exists>rows. decode_frame cfg recv = Some rows \<and> length rows = group_count cfg \<and>
           (\<forall>i<group_count cfg.
              rows ! i = take (var_count cfg)
                           [pos (recv ! i), vel (recv ! i), tau (recv ! i), error (recv ! i),
                            temperature (recv ! i), mos_temperature (recv ! i)] \<and>
              length (rows ! i) = min (var_count cfg) 6)"
proof -
  let ?rows = "map (\<lambda>i. decode_row cfg (recv ! i)) [0..<group_count cfg]"
  have ret: "decode_frame cfg recv = Some ?rows"
    using assms by (simp add: decode_frame_def)
  have len: "length ?rows = group_count cfg" by simp
  have row: "?rows ! i = take (var_count cfg)
                           [pos (recv ! i), vel (recv ! i), tau (recv ! i), error (recv ! i),
                            temperature (recv ! i), mos_temperature (recv ! i)] \<and>
             length (?rows ! i) = min (var_count cfg) 6" if "i < group_count cfg" for i
    using that length_decode_row [of cfg "recv ! i"] by (simp add: decode_row_eq)
  from ret len row show ?thesis by blast
qed

theorem decode_frame_rows_witness:
  "length (replicate 13 zero_motor) = MOTOR_COUNT \<and>
   group_count default_config \<le> MOTOR_COUNT \<and>
   length (the (decode_frame default_config (replicate 13 zero_motor))) = 13 \<and>
   the (decode_frame default_config (replicate 13 zero_motor)) ! 0 = [0, 0, 0, 0, 0, 0]"
  using decode_frame_rows [of "replicate 13 zero_motor" default_config]
  by (auto simp: MOTOR_COUNT_def default_config_def zero_motor_def)

text \<open>C4 as stated fails under the default construction: every row has 6 entries,
  not the 12 the buffer was configured to hold.\<close>

theorem decode_frame_not_padded:
  "decode_frame default_config (replicate 13 zero_motor) = Some (replicate 13 [0, 0, 0, 0, 0, 0]) \<and>
   var_count default_config = 12"
  by (simp add: decode_frame_def decode_row_eq default_config_def zero_motor_def
      list_eq_iff_nth_eq)

text \<open>
  C3. Under the default construction (13 groups, 12 variables) every accepted datagram
  decodes to 13 rows of 6 values, \<^verbatim>\<open>setData\<close> rejects that grid as an invalid size, and
  the receive loop returns with the stored grid, the plotted series, the label queue
  and the update signal count as they were.
\<close>

theorem default_construction_never_stores_udp_data:
  assumes "\<forall>ev\<in>set evs. length (recv_data ev) = MOTOR_COUNT"
  shows "(\<forall>ev\<in>set evs.
            \<exists>rows. decode_frame default_config (recv_data ev) = Some rows \<and>
                   length rows = 13 \<and> list_all (\<lambda>r. length r = 6) rows \<and>
                   (\<forall>stamp t. setData default_config stamp rows t =
                        Some (t\<lparr>diagnostics := diagnostics t @ [InvalidDataSize]\<rparr>))) \<and>
         (\<exists>s'. receiveUDPData default_config can_open evs s = Some s' \<and>
               data_array s' = data_array s \<and> numeric s' = numeric s \<and>
               ui_queue s' = ui_queue s \<and> dataReceived s' = dataReceived s)"
proof -
  let ?P = "\<lambda>t::stream_state. data_array t = data_array s \<and> numeric t = numeric s \<and>
               ui_queue t = ui_queue s \<and> dataReceived t = dataReceived s"
  have "\<exists>s'. for_each (receive_iteration default_config can_open) evs s = Some s' \<and> ?P s'"
  proof (rule for_each_defined)
    fix ev t
    assume "ev \<in> set evs" and t: "?P t"
    with assms have "length (recv_data ev) = MOTOR_COUNT" by simp
    from default_iteration_keeps [OF this, of can_open t] t
    show "\<exists>t'. receive_iteration default_config can_open ev t = Some t' \<and> ?P t'" by auto
  qed simp
  moreover from assms default_rows
  have "\<forall>ev\<in>set evs.
            \<exists>rows. decode_frame default_config (recv_data ev) = Some rows \<and>
                   length rows = 13 \<and> list_all (\<lambda>r. length r = 6) rows \<and>
                   (\<forall>stamp t. setData default_config stamp rows t =
                        Some (t\<lparr>diagnostics := diagnostics t @ [InvalidDataSize]\<rparr>))"
    by blast
  ultimately show ?thesis by (simp add: receiveUDPData_def)
qed

theorem default_construction_never_stores_udp_data_witness:
  "length (recv_data (datagram ''2025-04-03-13-00-12'' error_frame)) = MOTOR_COUNT \<and>
   accepted (datagram ''2025-04-03-13-00-12'' error_frame) \<and>
   receiveUDPData default_config (\<lambda>p. True) [datagram ''2025-04-03-13-00-12'' error_frame]
     (DataStreamSample default_config) \<noteq> None \<and>
   data_array (the (receiveUDPData default_config (\<lambda>p. True)
                      [datagram ''2025-04-03-13-00-12'' error_frame]
                      (DataStreamSample default_config)))
     = replicate 13 (replicate 12 0)"
  using default_construction_never_stores_udp_data
          [of "[datagram ''2025-04-03-13-00-12'' error_frame]" "\<lambda>p. True"
              "DataStreamSample default_config"]
  by (auto simp: datagram_sel length_frames accepted_datagram DataStreamSample_def initial_log_mode_def
      default_config_def)

text \<open>
  C8. The test of the receive loop compares the return value of \<^verbatim>\<open>recvfrom\<close> with
  \<^verbatim>\<open>sizeof(recv_data)\<close>. A datagram that is shorter is dropped with a warning (lemma
  \<open>mismatched_datagram_is_dropped\<close>). A datagram of 1353 bytes differs from the expected
  1352 as well, but \<^verbatim>\<open>recvfrom\<close> cuts it to the buffer and returns 1352: the iteration
  takes it for a frame, without a warning, and a frame with an error is written to the
  error log.
\<close>

theorem oversized_datagram_is_accepted:
  "int 1353 \<noteq> sizeof_recv_data \<and>
   recvfrom 1353 = sizeof_recv_data \<and>
   map_option files
     (receive_iteration default_config (\<lambda>p. True)
        \<lparr>bytesRead = recvfrom 1353, recv_data = error_frame, clock = 0,
         timestamp_str = ''2025-04-03-13-00-03''\<rparr>
        (DataStreamSample default_config)) =
   Some [(''/tmp/plotjuggler_motor_monitor_log/motor_error_log_2025-04-03-13-00-03.txt'',
          ''2025-04-03-13-00-03'', error_frame)] \<and>
   map_option diagnostics
     (receive_iteration default_config (\<lambda>p. True)
        \<lparr>bytesRead = recvfrom 1353, recv_data = error_frame, clock = 0,
         timestamp_str = ''2025-04-03-13-00-03''\<rparr>
        (DataStreamSample default_config)) =
   Some [InvalidDataSize,
         LogExported
           ''/tmp/plotjuggler_motor_monitor_log/motor_error_log_2025-04-03-13-00-03.txt'']"
proof -
  have size: "int 1353 \<noteq> sizeof_recv_data"
    by (simp add: sizeof_recv_data_def MOTOR_COUNT_def sizeof_InteractiveMotorData_def)
  have ret: "recvfrom 1353 = sizeof_recv_data" by (simp add: recvfrom_full_size)
  have ev: "\<lparr>bytesRead = recvfrom 1353, recv_data = error_frame, clock = 0,
             timestamp_str = ''2025-04-03-13-00-03''\<rparr> =
            datagram ''2025-04-03-13-00-03'' error_frame"
    by (simp add: ret datagram_def sizeof_recv_data_def MOTOR_COUNT_def
        sizeof_InteractiveMotorData_def)
  have "receive_iteration default_config (\<lambda>p. True)
          (datagram ''2025-04-03-13-00-03'' error_frame) (DataStreamSample default_config) =
        Some (log_frame (\<lambda>p. True) (datagram ''2025-04-03-13-00-03'' error_frame)
                ((DataStreamSample default_config)\<lparr>diagnostics :=
                   diagnostics (DataStreamSample default_config) @ [InvalidDataSize]\<rparr>))"
    by (rule default_iteration_accepted) (simp add: length_frames)
  then have
    "map_option files
       (receive_iteration default_config (\<lambda>p. True)
          (datagram ''2025-04-03-13-00-03'' error_frame) (DataStreamSample default_config)) =
     Some [(''/tmp/plotjuggler_motor_monitor_log/motor_error_log_2025-04-03-13-00-03.txt'',
            ''2025-04-03-13-00-03'', error_frame)] \<and>
     map_option diagnostics
       (receive_iteration default_config (\<lambda>p. True)
          (datagram ''2025-04-03-13-00-03'' error_frame) (DataStreamSample default_config)) =
     Some [InvalidDataSize,
           LogExported
             ''/tmp/plotjuggler_motor_monitor_log/motor_error_log_2025-04-03-13-00-03.txt'']"
    by (simp add: log_frame_def Let_def datagram_sel frame_has_error_error
        printMotorDataToFile_def take_frames DataStreamSample_def initial_log_mode_def
        motor_error_log_path_def log_dir_def)
  with size ret ev show ?thesis by simp
qed

text \<open>
  C9. When the log file does not open, \<^verbatim>\<open>printMotorDataToFile\<close> reports it once and
  writes nothing; the flush still clears the pending buffer, so the batch is lost;
  the grid and the series are untouched and the receive loop keeps returning.
\<close>

theorem log_open_failure_loses_batch:
  assumes fail: "\<not> can_open (log_path (log_mode s) (first_timestamp s ev))"
    and flush: "log_mode s = 1 \<or> frame_has_error (recv_data ev)"
  shows "printMotorDataToFile can_open fr MOTOR_COUNT
             (log_path (log_mode s) (first_timestamp s ev)) (timestamp_str ev) s =
           s\<lparr>diagnostics := diagnostics s @
                 [CannotOpenFile (log_path (log_mode s) (first_timestamp s ev))]\<rparr> \<and>
         files (log_frame can_open ev s) = files s \<and>
         error_data_buffer (log_frame can_open ev s) = [] \<and>
         diagnostics (log_frame can_open ev s) =
           diagnostics s @
           replicate (Suc (length (error_data_buffer s)))
             (CannotOpenFile (log_path (log_mode s) (first_timestamp s ev))) @
           [LogExported (log_path (log_mode s) (first_timestamp s ev))] \<and>
         data_array (log_frame can_open ev s) = data_array s \<and>
         numeric (log_frame can_open ev s) = numeric s \<and>
         (instance_ok cfg s \<and> frame_ok ev \<and> list_all frame_ok evs \<longrightarrow>
            (\<exists>s'. receiveUDPData cfg can_open (ev # evs) s = Some s'))"
proof -
  note fl = log_frame_flush [OF flush, of can_open]
  have run: "\<exists>s'. receiveUDPData cfg can_open (ev # evs) s = Some s'"
    if "instance_ok cfg s" and "frame_ok ev" and "list_all frame_ok evs"
    using receiveUDPData_defined [of cfg s "ev # evs" can_open] that
    by (auto simp: list_all_iff)
  from fail fl(3,4,1,7,8) run show ?thesis
    by (simp add: printMotorDataToFile_def)
qed

theorem log_open_failure_loses_batch_witness:
  "\<not> (\<lambda>p. False) (log_path (log_mode (DataStreamSample default_config))
          (first_timestamp (DataStreamSample default_config)
             (datagram ''2025-04-03-13-00-03'' error_frame))) \<and>
   frame_has_error (recv_data (datagram ''2025-04-03-13-00-03'' error_frame)) \<and>
   files (log_frame (\<lambda>p. False) (datagram ''2025-04-03-13-00-03'' error_frame)
            (DataStreamSample default_config)) = [] \<and>
   error_data_buffer (log_frame (\<lambda>p. False) (datagram ''2025-04-03-13-00-03'' error_frame)
            (DataStreamSample default_config)) = [] \<and>
   instance_ok default_config (DataStreamSample default_config) \<and>
   frame_ok (datagram ''2025-04-03-13-00-03'' error_frame) \<and>
   list_all frame_ok [datagram ''2025-04-03-13-00-04'' clean_frame] \<and>
   receiveUDPData default_config (\<lambda>p. False)
     [datagram ''2025-04-03-13-00-03'' error_frame, datagram ''2025-04-03-13-00-04'' clean_frame]
     (DataStreamSample default_config) \<noteq> None"
proof -
  let ?s0 = "DataStreamSample default_config"
  let ?ev = "datagram ''2025-04-03-13-00-03'' error_frame"
  have fail: "\<not> (\<lambda>p. False) (log_path (log_mode ?s0) (first_timestamp ?s0 ?ev))" by simp
  have flush: "log_mode ?s0 = 1 \<or> frame_has_error (recv_data ?ev)"
    by (simp add: datagram_sel frame_has_error_error)
  have pre: "instance_ok default_config ?s0 \<and> frame_ok ?ev \<and>
             list_all frame_ok [datagram ''2025-04-03-13-00-04'' clean_frame]"
    by (simp add: instance_ok_default frame_ok_datagram)
  note T = log_open_failure_loses_batch
             [OF fail flush, of error_frame default_config
                 "[datagram ''2025-04-03-13-00-04'' clean_frame]"]
  from T pre have "\<exists>s'. receiveUDPData default_config (\<lambda>p. False)
       [?ev, datagram ''2025-04-03-13-00-04'' clean_frame] ?s0 = Some s'" by blast
  with T pre flush show ?thesis
    by (auto simp: datagram_sel DataStreamSample_def initial_log_mode_def)
qed

text \<open>
  C7. In full-time log mode (\<^verbatim>\<open>log_mode_ == 1\<close>), starting with an empty pending buffer
  and with files that open, the run appends one block per accepted frame, in receive
  order, all under the one path \<^verbatim>\<open>full_log_<first time stamp>.txt\<close> of the log directory;
  each flush writes the pending buffer extended by the current frame and clears it.
\<close>

theorem continuous_mode_logs_every_frame_once:
  assumes mode: "log_mode s = 1" and empty: "error_data_buffer s = []"
    and ok: "instance_ok cfg s"
    and frames: "\<forall>ev\<in>set evs. frame_ok ev \<and> timestamp_str ev \<noteq> []"
    and opens: "\<forall>p. can_open p"
  shows "(\<exists>s'. receiveUDPData cfg can_open evs s = Some s' \<and>
           files s' =
             files s @
             map (\<lambda>ev. (''/tmp/plotjuggler_motor_monitor_log/full_log_'' @ run_first_timestamp s evs @ ''.txt'', timestamp_str ev,
                        take MOTOR_COUNT (recv_data ev)))
               (filter accepted evs) \<and>
           error_data_buffer s' = []) \<and>
         (timestamp_str_first s = [] \<longrightarrow>
            run_first_timestamp s evs =
              (case filter accepted evs of [] \<Rightarrow> [] | ev # _ \<Rightarrow> timestamp_str ev)) \<and>
         (\<forall>ev t. log_mode t = 1 \<longrightarrow>
            files (log_frame can_open ev t) =
              files t @
              map (\<lambda>fr. (''/tmp/plotjuggler_motor_monitor_log/full_log_'' @ first_timestamp t ev @ ''.txt'', timestamp_str ev,
                         take MOTOR_COUNT fr))
                (error_data_buffer t @ [take MOTOR_COUNT (recv_data ev)]) \<and>
            error_data_buffer (log_frame can_open ev t) = [])"
proof -
  from ok frames obtain s' where run: "receiveUDPData cfg can_open evs s = Some s'"
    using receiveUDPData_defined [of cfg s evs can_open] by auto
  from frames have ts: "\<forall>ev\<in>set evs. timestamp_str ev \<noteq> []" by simp
  have "logged 1 = accepted" by (rule ext) (simp add: logged_def)
  with mode have flt: "filter (logged (log_mode s)) evs = filter accepted evs"
    by simp
  from receiveUDPData_log [OF run empty ts] mode opens flt
  have 1: "files s' =
             files s @
             map (\<lambda>ev. (''/tmp/plotjuggler_motor_monitor_log/full_log_'' @ run_first_timestamp s evs @ ''.txt'', timestamp_str ev,
                        take MOTOR_COUNT (recv_data ev)))
               (filter accepted evs) \<and>
           error_data_buffer s' = []"
    by (simp add: log_path_def full_log_path_def log_dir_def)
  from flt have 2: "timestamp_str_first s = [] \<longrightarrow>
            run_first_timestamp s evs =
              (case filter accepted evs of [] \<Rightarrow> [] | ev # _ \<Rightarrow> timestamp_str ev)"
    by (simp add: run_first_timestamp_def)
  have 3: "files (log_frame can_open ev t) =
              files t @
              map (\<lambda>fr. (''/tmp/plotjuggler_motor_monitor_log/full_log_'' @ first_timestamp t ev @ ''.txt'', timestamp_str ev,
                         take MOTOR_COUNT fr))
                (error_data_buffer t @ [take MOTOR_COUNT (recv_data ev)]) \<and>
            error_data_buffer (log_frame can_open ev t) = []" if "log_mode t = 1" for ev t
    using log_frame_flush(1,3) [of t ev can_open] that opens by (simp add: log_path_def full_log_path_def log_dir_def)
  from run 1 2 3 show ?thesis by blast
qed

theorem continuous_mode_logs_every_frame_once_witness:
  "log_mode ((DataStreamSample default_config)\<lparr>log_mode := 1\<rparr>) = 1 \<and>
   instance_ok default_config ((DataStreamSample default_config)\<lparr>log_mode := 1\<rparr>) \<and>
   map_option files
     (receiveUDPData default_config (\<lambda>p. True)
        [datagram ''2025-04-03-13-00-01'' clean_frame, short_datagram,
         datagram ''2025-04-03-13-00-03'' error_frame]
        ((DataStreamSample default_config)\<lparr>log_mode := 1\<rparr>)) =
   Some [(''/tmp/plotjuggler_motor_monitor_log/full_log_2025-04-03-13-00-01.txt'', ''2025-04-03-13-00-01'', clean_frame),
         (''/tmp/plotjuggler_motor_monitor_log/full_log_2025-04-03-13-00-01.txt'', ''2025-04-03-13-00-03'', error_frame)] \<and>
   files (log_frame (\<lambda>p. True) (datagram ''2025-04-03-13-00-01'' clean_frame)
            ((DataStreamSample default_config)\<lparr>log_mode := 1\<rparr>)) =
     [(''/tmp/plotjuggler_motor_monitor_log/full_log_2025-04-03-13-00-01.txt'', ''2025-04-03-13-00-01'', clean_frame)]"
proof -
  let ?s1 = "(DataStreamSample default_config)\<lparr>log_mode := 1\<rparr>"
  let ?evs = "[datagram ''2025-04-03-13-00-01'' clean_frame, short_datagram,
               datagram ''2025-04-03-13-00-03'' error_frame]"
  have mode: "log_mode ?s1 = 1" and empty: "error_data_buffer ?s1 = []"
    and tsf: "timestamp_str_first ?s1 = []" and fs: "files ?s1 = []"
    by (simp_all add: DataStreamSample_def)
  have ok: "instance_ok default_config ?s1"
    using instance_ok_default by (simp add: instance_ok_def)
  have sh: "frame_ok short_datagram" "\<not> accepted short_datagram"
    "timestamp_str short_datagram \<noteq> []"
    by (simp_all add: short_datagram_def frame_ok_def length_frames clean_frame_def
        zero_motor_def static_cast_int_half list_all_iff accepted_def sizeof_recv_data_def
        MOTOR_COUNT_def sizeof_InteractiveMotorData_def)
  have frames: "\<forall>ev\<in>set ?evs. frame_ok ev \<and> timestamp_str ev \<noteq> []"
    by (simp add: sh frame_ok_datagram datagram_sel)
  have opens: "\<forall>p. (\<lambda>p. True) p" by simp
  note T = continuous_mode_logs_every_frame_once [OF mode empty ok frames opens]
  have flt: "filter accepted ?evs = [datagram ''2025-04-03-13-00-01'' clean_frame,
                                      datagram ''2025-04-03-13-00-03'' error_frame]"
    by (simp add: sh accepted_datagram)
  from T tsf flt have rft: "run_first_timestamp ?s1 ?evs = ''2025-04-03-13-00-01''"
    by (simp add: datagram_sel)
  from T fs flt rft
  have run: "map_option files (receiveUDPData default_config (\<lambda>p. True) ?evs ?s1) =
      Some [(''/tmp/plotjuggler_motor_monitor_log/full_log_2025-04-03-13-00-01.txt'', ''2025-04-03-13-00-01'', clean_frame),
            (''/tmp/plotjuggler_motor_monitor_log/full_log_2025-04-03-13-00-01.txt'', ''2025-04-03-13-00-03'', error_frame)]"
    by (auto simp: datagram_sel take_frames)
  from T mode
  have "files (log_frame (\<lambda>p. True) (datagram ''2025-04-03-13-00-01'' clean_frame) ?s1) =
          files ?s1 @
          map (\<lambda>fr. (''/tmp/plotjuggler_motor_monitor_log/full_log_'' @
                        first_timestamp ?s1 (datagram ''2025-04-03-13-00-01'' clean_frame) @
                        ''.txt'',
                      timestamp_str (datagram ''2025-04-03-13-00-01'' clean_frame),
                      take MOTOR_COUNT fr))
            (error_data_buffer ?s1 @
             [take MOTOR_COUNT (recv_data (datagram ''2025-04-03-13-00-01'' clean_frame))])"
    by blast
  with fs empty tsf
  have step: "files (log_frame (\<lambda>p. True) (datagram ''2025-04-03-13-00-01'' clean_frame) ?s1) =
      [(''/tmp/plotjuggler_motor_monitor_log/full_log_2025-04-03-13-00-01.txt'', ''2025-04-03-13-00-01'', clean_frame)]"
    by (simp add: datagram_sel take_frames first_timestamp_def)
  from mode ok run step show ?thesis by blast
qed



text \<open>
  C2 (as amended). The first time stamp is taken at the first flush of the receive loop
  and never reset: every block that a run writes goes to
  \<^verbatim>\<open><mode prefix>_<first time stamp>.txt\<close>, the prefix chosen by the log mode. A flush in
  log-on-error mode clears \<^verbatim>\<open>error_triggered_\<close> but leaves the time stamp, so a later
  error run appends to the path of the first one.
\<close>

theorem log_path_fixed_by_first_flush:
  assumes ok: "instance_ok cfg s" and empty: "error_data_buffer s = []"
    and frames: "\<forall>ev\<in>set evs. frame_ok ev \<and> timestamp_str ev \<noteq> []"
  shows "(\<exists>s'. receiveUDPData cfg can_open evs s = Some s' \<and>
           timestamp_str_first s' = run_first_timestamp s evs \<and>
           list_all (\<lambda>e. fst e = log_path (log_mode s) (run_first_timestamp s evs))
             (drop (length (files s)) (files s'))) \<and>
         (timestamp_str_first s \<noteq> [] \<longrightarrow> run_first_timestamp s evs = timestamp_str_first s) \<and>
         (\<forall>ev t. log_mode t = 1 \<or> frame_has_error (recv_data ev) \<longrightarrow>
            timestamp_str_first (log_frame can_open ev t) = first_timestamp t ev \<and>
            list_all (\<lambda>e. fst e = log_path (log_mode t) (first_timestamp t ev))
              (drop (length (files t)) (files (log_frame can_open ev t))) \<and>
            (log_mode t = 0 \<longrightarrow> \<not> error_triggered (log_frame can_open ev t))) \<and>
         (\<forall>ev t. timestamp_str_first t \<noteq> [] \<longrightarrow>
            timestamp_str_first (log_frame can_open ev t) = timestamp_str_first t)"
proof -
  from ok frames obtain s' where run: "receiveUDPData cfg can_open evs s = Some s'"
    using receiveUDPData_defined [of cfg s evs can_open] by auto
  from frames have ts: "\<forall>ev\<in>set evs. timestamp_str ev \<noteq> []" by simp
  from receiveUDPData_log [OF run empty ts]
  have 1: "timestamp_str_first s' = run_first_timestamp s evs \<and>
           list_all (\<lambda>e. fst e = log_path (log_mode s) (run_first_timestamp s evs))
             (drop (length (files s)) (files s'))"
    by (auto simp: list_all_iff)
  have 2: "timestamp_str_first s \<noteq> [] \<longrightarrow> run_first_timestamp s evs = timestamp_str_first s"
    by (simp add: run_first_timestamp_def)
  have 3: "timestamp_str_first (log_frame can_open ev t) = first_timestamp t ev \<and>
            list_all (\<lambda>e. fst e = log_path (log_mode t) (first_timestamp t ev))
              (drop (length (files t)) (files (log_frame can_open ev t))) \<and>
            (log_mode t = 0 \<longrightarrow> \<not> error_triggered (log_frame can_open ev t))"
    if "log_mode t = 1 \<or> frame_has_error (recv_data ev)" for ev t
    using log_frame_flush(2,3,5) [OF that, of can_open] by (auto simp: list_all_iff)
  have 4: "timestamp_str_first (log_frame can_open ev t) = timestamp_str_first t"
    if "timestamp_str_first t \<noteq> []" for ev t
  proof (cases "log_mode t = 1 \<or> frame_has_error (recv_data ev)")
    case True
    from log_frame_flush(2) [OF True, of can_open] that show ?thesis
      by (simp add: first_timestamp_def)
  next
    case False
    then show ?thesis by (simp add: log_frame_no_flush)
  qed
  from run 1 2 3 4 show ?thesis by blast
qed

theorem log_path_fixed_by_first_flush_witness:
  "instance_ok default_config (DataStreamSample default_config) \<and>
   error_data_buffer (DataStreamSample default_config) = [] \<and>
   map_option timestamp_str_first
     (receiveUDPData default_config (\<lambda>p. True)
        [datagram ''2025-04-03-13-00-03'' error_frame,
         datagram ''2025-04-03-13-00-04'' clean_frame,
         datagram ''2025-04-03-13-07-30'' error_frame]
        (DataStreamSample default_config)) = Some ''2025-04-03-13-00-03'' \<and>
   timestamp_str_first
     (log_frame (\<lambda>p. True) (datagram ''2025-04-03-13-07-30'' error_frame)
        ((DataStreamSample default_config)\<lparr>timestamp_str_first := ''2025-04-03-13-00-03''\<rparr>)) =
     ''2025-04-03-13-00-03'' \<and>
   \<not> error_triggered
     (log_frame (\<lambda>p. True) (datagram ''2025-04-03-13-07-30'' error_frame)
        ((DataStreamSample default_config)\<lparr>timestamp_str_first := ''2025-04-03-13-00-03''\<rparr>))"
proof -
  let ?s0 = "DataStreamSample default_config"
  let ?evs = "[datagram ''2025-04-03-13-00-03'' error_frame,
               datagram ''2025-04-03-13-00-04'' clean_frame,
               datagram ''2025-04-03-13-07-30'' error_frame]"
  have s0: "log_mode ?s0 = 0" "error_data_buffer ?s0 = []" "timestamp_str_first ?s0 = []"
    by (simp_all add: DataStreamSample_def initial_log_mode_def)
  have frames: "\<forall>ev\<in>set ?evs. frame_ok ev \<and> timestamp_str ev \<noteq> []"
    by (simp add: frame_ok_datagram datagram_sel)
  note T = log_path_fixed_by_first_flush [OF instance_ok_default s0(2) frames, of "\<lambda>p. True"]
  have rft: "run_first_timestamp ?s0 ?evs = ''2025-04-03-13-00-03''"
    by (simp add: run_first_timestamp_def s0 logged_0 accepted_datagram datagram_sel
        frame_has_error_error)
  from T rft
  have run: "map_option timestamp_str_first (receiveUDPData default_config (\<lambda>p. True) ?evs ?s0) =
      Some ''2025-04-03-13-00-03''"
    by auto
  let ?t = "?s0\<lparr>timestamp_str_first := ''2025-04-03-13-00-03''\<rparr>"
  let ?ev = "datagram ''2025-04-03-13-07-30'' error_frame"
  have "timestamp_str_first ?t \<noteq> []" by simp
  with T have "timestamp_str_first (log_frame (\<lambda>p. True) ?ev ?t) = timestamp_str_first ?t"
    by blast
  then have kept: "timestamp_str_first (log_frame (\<lambda>p. True) ?ev ?t) = ''2025-04-03-13-00-03''"
    by simp
  have fl: "log_mode ?t = 1 \<or> frame_has_error (recv_data ?ev)"
    by (simp add: datagram_sel frame_has_error_error)
  with T have "log_mode ?t = 0 \<longrightarrow> \<not> error_triggered (log_frame (\<lambda>p. True) ?ev ?t)"
    by blast
  with s0(1) have reset: "\<not> error_triggered (log_frame (\<lambda>p. True) ?ev ?t)" by simp
  from instance_ok_default s0(2) run kept reset show ?thesis by blast
qed

text \<open>C2 as stated fails: the second error run, minutes after the first, is appended
  to the file named by the first run's time stamp.\<close>

theorem later_error_run_appends_to_first_path:
  "map_option files
     (receiveUDPData default_config (\<lambda>p. True)
        [datagram ''2025-04-03-13-00-03'' error_frame,
         datagram ''2025-04-03-13-00-04'' clean_frame,
         datagram ''2025-04-03-13-07-30'' error_frame]
        (DataStreamSample default_config)) =
   Some [(motor_error_log_path ''2025-04-03-13-00-03'', ''2025-04-03-13-00-03'', error_frame),
         (motor_error_log_path ''2025-04-03-13-00-03'', ''2025-04-03-13-07-30'', error_frame)] \<and>
   motor_error_log_path ''2025-04-03-13-00-03'' \<noteq> motor_error_log_path ''2025-04-03-13-07-30''"
  by (simp add: receiveUDPData_def default_iteration_accepted length_frames accepted_datagram
      log_frame_def Let_def datagram_sel frame_has_error_clean frame_has_error_error
      printMotorDataToFile_def take_frames DataStreamSample_def initial_log_mode_def motor_error_log_path_def)

text \<open>
  C5 (as amended). On an update, for a motor that has a label, the error value (index
  3 of its row plus 0.5 as doubles, truncated to an int) is compared with the cached
  value; the two label calls are queued and the cache is updated exactly when the two
  differ. Over a sequence of grids the notifications of motor i are the values that
  differ from their predecessor, the first one compared with the cache. The constructor
  fills the cache with -1, so a first observation notifies unless its value is -1 as
  well; for the error values 0, 0, 2, 2, 0 a cache that already holds 0 gives two
  notifications (2 and 0) and a fresh cache gives three (0, 2 and 0). Labels exist only
  after the first \<^verbatim>\<open>startUIWindow\<close> of a process; an instance without labels queues
  nothing and leaves the cache alone.
\<close>

theorem label_notified_on_change_only:
  assumes gc: "0 < group_count cfg" and vc: "4 \<le> var_count cfg"
    and cache: "group_count cfg \<le> length (last_errors s)"
    and i: "i < min (group_count cfg) (motor_error_labels s)"
    and grid: "grid_ok cfg (data_array s)"
    and grids: "\<forall>d\<in>set grids. grid_ok cfg d"
  shows "(\<exists>s'. updateData cfg stamp s = Some s' \<and>
              last_errors s' ! i = grid_error (data_array s) i \<and>
              calls_for i (ui_queue s') =
                calls_for i (ui_queue s) @
                (if last_errors s ! i \<noteq> grid_error (data_array s) i
                 then label_calls i (grid_error (data_array s) i) else [])) \<and>
         (\<exists>s'. for_each (setData cfg stamp) grids s = Some s' \<and>
              calls_for i (ui_queue s') =
                calls_for i (ui_queue s) @
                concat (map (label_calls i)
                  (changes (last_errors s ! i) (map (\<lambda>d. grid_error d i) grids)))) \<and>
         changes 0 [0, 0, 2, 2, 0] = [2, 0] \<and>
         changes (- 1) [0, 0, 2, 2, 0] = [0, 2, 0] \<and>
         changes (- 1) [e] = (if e = - 1 then [] else [e]) \<and>
         last_errors (DataStreamSample cfg) = replicate (group_count cfg) (- 1) \<and>
         startUIWindow cfg False t = (True, t\<lparr>motor_error_labels := group_count cfg\<rparr>) \<and>
         startUIWindow cfg True t = (True, t) \<and>
         (\<forall>u u'. motor_error_labels u = 0 \<and> updateData cfg stamp u = Some u' \<longrightarrow>
            ui_queue u' = ui_queue u \<and> last_errors u' = last_errors u)"
proof -
  have "changes (- 1) [e] = (if e = - 1 then [] else [e])" by auto
  moreover have "last_errors (DataStreamSample cfg) = replicate (group_count cfg) (- 1)"
    by (simp add: DataStreamSample_def)
  moreover have "startUIWindow cfg False t = (True, t\<lparr>motor_error_labels := group_count cfg\<rparr>)"
    and "startUIWindow cfg True t = (True, t)"
    by (simp_all add: startUIWindow_def)
  moreover have "\<forall>u u'. motor_error_labels u = 0 \<and> updateData cfg stamp u = Some u' \<longrightarrow>
            ui_queue u' = ui_queue u \<and> last_errors u' = last_errors u"
    using updateData_no_labels by blast
  ultimately show ?thesis
    using updateData_grid_ok [OF grid vc cache i, of stamp]
      setData_sequence_calls [OF grids gc vc cache i, of stamp]
    by auto
qed

theorem label_notified_on_change_only_witness:
  "0 < group_count default_config \<and> 4 \<le> var_count default_config \<and>
   map_option (\<lambda>t. calls_for 0 (ui_queue t))
     (for_each (setData default_config 0)
        [error_grid 0, error_grid 0, error_grid 0, error_grid 2, error_grid 2, error_grid 0]
        (snd (startUIWindow default_config False (DataStreamSample default_config)))) =
   Some (label_calls 0 0 @ label_calls 0 2 @ label_calls 0 0) \<and>
   map_option (\<lambda>t. calls_for 0 (ui_queue t))
     (for_each (setData default_config 0) [error_grid (- 2)]
        (snd (startUIWindow default_config False (DataStreamSample default_config)))) =
   Some [] \<and>
   map_option (\<lambda>t. last_errors t ! 0)
     (updateData default_config 0
        (snd (startUIWindow default_config False (DataStreamSample default_config)))) =
   Some 0"
proof -
  let ?s = "snd (startUIWindow default_config False (DataStreamSample default_config))"
  let ?grids = "[error_grid 0, error_grid 0, error_grid 0, error_grid 2, error_grid 2,
                 error_grid 0]"
  have gc: "0 < group_count default_config" and vc: "4 \<le> var_count default_config"
    by (simp_all add: default_config_def)
  have cache: "group_count default_config \<le> length (last_errors ?s)"
    and i: "0 < min (group_count default_config) (motor_error_labels ?s)"
    by (simp_all add: default_config_def startUIWindow_def DataStreamSample_def)
  have grid: "grid_ok default_config (data_array ?s)"
    by (simp add: grid_ok_def startUIWindow_def DataStreamSample_def default_config_def
        static_cast_int_half list_all_iff)
  have grids: "\<forall>d\<in>set ?grids. grid_ok default_config d"
    and grids': "\<forall>d\<in>set [error_grid (- 2)]. grid_ok default_config d"
    by (simp_all add: grid_ok_error_grid grid_ok_error_grid_minus)
  have start: "last_errors ?s ! 0 = - 1" "calls_for 0 (ui_queue ?s) = []"
    by (simp_all add: startUIWindow_def DataStreamSample_def default_config_def calls_for_def)
  have zero: "grid_error (data_array ?s) 0 = 0"
    by (simp add: grid_error_def startUIWindow_def DataStreamSample_def default_config_def
        static_cast_int_half)
  have vals: "map (\<lambda>d. grid_error d 0) ?grids = [0, 0, 0, 2, 2, 0]"
    "map (\<lambda>d. grid_error d 0) [error_grid (- 2)] = [- 1]"
    by (simp_all add: grid_error_error_grid grid_ok_error_grid_minus)
  from label_notified_on_change_only [OF gc vc cache i grid grids, of 0]
  obtain s1 where run1: "for_each (setData default_config 0) ?grids ?s = Some s1"
    and q1: "calls_for 0 (ui_queue s1) =
               calls_for 0 (ui_queue ?s) @
               concat (map (label_calls 0)
                 (changes (last_errors ?s ! 0) (map (\<lambda>d. grid_error d 0) ?grids)))"
    by blast
  from q1 have "calls_for 0 (ui_queue s1) = label_calls 0 0 @ label_calls 0 2 @ label_calls 0 0"
    by (simp only: start vals) simp
  with run1 have seq: "map_option (\<lambda>t. calls_for 0 (ui_queue t))
      (for_each (setData default_config 0) ?grids ?s) =
      Some (label_calls 0 0 @ label_calls 0 2 @ label_calls 0 0)"
    by (simp only: option.map)
  from label_notified_on_change_only [OF gc vc cache i grid grids', of 0]
  obtain s2 where run2: "for_each (setData default_config 0) [error_grid (- 2)] ?s = Some s2"
    and q2: "calls_for 0 (ui_queue s2) =
               calls_for 0 (ui_queue ?s) @
               concat (map (label_calls 0)
                 (changes (last_errors ?s ! 0)
                    (map (\<lambda>d. grid_error d 0) [error_grid (- 2)])))"
    by blast
  from q2 have "calls_for 0 (ui_queue s2) = []"
    by (simp only: start vals) simp
  with run2 have silent: "map_option (\<lambda>t. calls_for 0 (ui_queue t))
      (for_each (setData default_config 0) [error_grid (- 2)] ?s) = Some []"
    by (simp only: option.map)
  from label_notified_on_change_only [OF gc vc cache i grid grids, of 0]
  obtain s3 where run3: "updateData default_config 0 ?s = Some s3"
    and c3: "last_errors s3 ! 0 = grid_error (data_array ?s) 0"
    by blast
  from run3 c3 zero have upd: "map_option (\<lambda>t. last_errors t ! 0)
      (updateData default_config 0 ?s) = Some 0"
    by (simp only: option.map)
  from gc vc seq silent upd show ?thesis by blast
qed

text \<open>C5 as stated fails on a freshly constructed instance: the first observation of
  error 0 differs from the cached -1, so three notifications are queued, not two.\<close>

theorem fresh_cache_notifies_three_times:
  "map_option (\<lambda>t. calls_for 0 (ui_queue t))
     (for_each (setData default_config 0)
        [error_grid 0, error_grid 0, error_grid 2, error_grid 2, error_grid 0]
        (snd (startUIWindow default_config False (DataStreamSample default_config)))) =
   Some [SetStyleSheet 0 ''color: black;'', SetText 0 (text_no_error @ '' (0)''),
         SetStyleSheet 0 ''color: red;'', SetText 0 (text_overcurrent @ '' (2)''),
         SetStyleSheet 0 ''color: black;'', SetText 0 (text_no_error @ '' (0)'')]"
proof -
  let ?s0 = "snd (startUIWindow default_config False (DataStreamSample default_config))"
  have "\<forall>d\<in>set [error_grid 0, error_grid 0, error_grid 2, error_grid 2, error_grid 0].
          grid_ok default_config d"
    by (simp add: grid_ok_error_grid)
  moreover have "0 < group_count default_config" "4 \<le> var_count default_config"
    "group_count default_config \<le> length (last_errors ?s0)"
    "0 < min (group_count default_config) (motor_error_labels ?s0)"
    by (simp_all add: default_config_def startUIWindow_def DataStreamSample_def initial_log_mode_def)
  ultimately obtain s' where
    run: "for_each (setData default_config 0)
            [error_grid 0, error_grid 0, error_grid 2, error_grid 2, error_grid 0] ?s0 = Some s'"
    and q: "calls_for 0 (ui_queue s') =
              calls_for 0 (ui_queue ?s0) @
              concat (map (label_calls 0)
                (changes (last_errors ?s0 ! 0)
                   (map (\<lambda>d. grid_error d 0)
                      [error_grid 0, error_grid 0, error_grid 2, error_grid 2, error_grid 0])))"
    using setData_sequence_calls [of _ default_config ?s0 0 0] by blast
  have "last_errors ?s0 ! 0 = - 1" "ui_queue ?s0 = []"
    by (simp_all add: startUIWindow_def DataStreamSample_def initial_log_mode_def default_config_def)
  with q have "calls_for 0 (ui_queue s') = label_calls 0 0 @ label_calls 0 2 @ label_calls 0 0"
    by (simp add: grid_error_error_grid calls_for_def)
  with run show ?thesis by (simp add: label_calls_def label_strings)
qed

text \<open>
  C6. \<^verbatim>\<open>setData\<close> tests the number of rows and the length of the first row only. A grid
  with 13 rows and a first row of 12 values passes the test whatever the other rows
  are: with a shorter second row \<^verbatim>\<open>updateData\<close> reads out of range, with longer rows the
  grid is stored although its shape is not 13 x 12.
\<close>

theorem setData_accepts_ragged_grid:
  "length ragged_short = group_count default_config \<and>
   length (ragged_short ! 1) \<noteq> var_count default_config \<and>
   setData default_config 0 ragged_short (DataStreamSample default_config) = None \<and>
   length ragged_long = group_count default_config \<and>
   length (ragged_long ! 1) \<noteq> var_count default_config \<and>
   map_option data_array (setData default_config 0 ragged_long (DataStreamSample default_config)) =
     Some ragged_long"
proof -
  let ?s0 = "DataStreamSample default_config"
  have shape: "length ragged_short = group_count default_config"
    "length (ragged_short ! 1) \<noteq> var_count default_config"
    "length ragged_long = group_count default_config"
    "length (ragged_long ! 1) \<noteq> var_count default_config"
    by (simp_all add: ragged_short_def ragged_long_def default_config_def)
  have short_acc: "setData default_config 0 ragged_short ?s0 =
      updateData default_config 0 (?s0\<lparr>data_array := ragged_short\<rparr>)"
    by (rule setData_accepts) (simp_all add: ragged_short_def default_config_def)
  have mem: "(1, 0) \<in> set (List.product [0..<group_count default_config]
                                          [0..<var_count default_config])"
    by (simp add: default_config_def)
  have name: "0 < length field_names" by (simp add: field_names_def)
  have "numeric ?s0 (series_name 1 0) \<noteq> None"
    unfolding DataStreamSample_def initial_log_mode_def using fold_register_series_registers [OF mem name]
    by simp
  then have reg: "numeric (?s0\<lparr>data_array := ragged_short\<rparr>) (series_name 1 0) \<noteq> None"
    by simp
  have cell: "lookup_cell (data_array (?s0\<lparr>data_array := ragged_short\<rparr>)) 1 0 = None"
    by (simp add: lookup_cell_def ragged_short_def)
  from for_each_push_point_None [OF mem name reg cell]
  have "updateData default_config 0 (?s0\<lparr>data_array := ragged_short\<rparr>) = None"
    by (simp add: updateData_def)
  with short_acc have short: "setData default_config 0 ragged_short ?s0 = None" by simp
  have long_acc: "setData default_config 0 ragged_long ?s0 =
      updateData default_config 0 (?s0\<lparr>data_array := ragged_long\<rparr>)"
    by (rule setData_accepts) (simp_all add: ragged_long_def default_config_def)
  have "\<exists>s'. updateData default_config 0 (?s0\<lparr>data_array := ragged_long\<rparr>) = Some s'"
  proof (rule updateData_defined)
    show "\<forall>g<group_count default_config.
            g < length (data_array (?s0\<lparr>data_array := ragged_long\<rparr>)) \<and>
            var_count default_config
              \<le> length (data_array (?s0\<lparr>data_array := ragged_long\<rparr>) ! g)"
      by (auto simp: ragged_long_def default_config_def nth_Cons split: nat.splits)
  next
    show "motor_error_labels (?s0\<lparr>data_array := ragged_long\<rparr>) = 0 \<or>
          (4 \<le> var_count default_config \<and>
           group_count default_config \<le> length (last_errors (?s0\<lparr>data_array := ragged_long\<rparr>)) \<and>
           (\<forall>g<group_count default_config.
              static_cast_int (double_add (data_array (?s0\<lparr>data_array := ragged_long\<rparr>) ! g ! 3) 0.5)
                \<noteq> None))"
      by (simp add: DataStreamSample_def initial_log_mode_def)
  qed
  then obtain s' where run: "updateData default_config 0 (?s0\<lparr>data_array := ragged_long\<rparr>) = Some s'"
    ..
  from updateData_Some [OF run] have "data_array s' = ragged_long" by simp
  with long_acc run
  have long: "map_option data_array (setData default_config 0 ragged_long ?s0) = Some ragged_long"
    by simp
  from shape short long show ?thesis by blast
qed

end
